theory Spec2Isabelle
  imports Main "HOL-Library.Char_ord" "HOL-Library.List_Lexorder"
begin

section \<open>Context store (pkg/config/config.go)\<close>

text \<open>
  The persisted document: a list of named contexts, the name of the current one and global
  options. Go strings are byte strings, modelled as \<^typ>\<open>string\<close>; a Go error is its
  message, \<open>nil\<close> is \<open>None\<close>.
\<close>

record Context =
  Name :: string
  Profile :: string
  TenancyOCID :: string
  CompartmentOCID :: string
  Region :: string
  User :: string
  Notes :: string

record Options =
  OCIConfigPath :: string
  SocketPath :: string
  DefaultProfile :: string

record Config =
  Options :: Options
  Contexts :: "Context list"
  CurrentContext :: string

type_synonym error = string

definition ErrContextNotFound :: error where
  "ErrContextNotFound = ''context not found''"

definition emptyContext :: Context where
  "emptyContext = \<lparr>Name = [], Profile = [], TenancyOCID = [], CompartmentOCID = [],
     Region = [], User = [], Notes = []\<rparr>"

text \<open>
  The loop \<open>for i, existing := range c.Contexts\<close> that stops at the first entry
  carrying the name: its result is the index of that entry, if there is one.
\<close>

fun index_of :: "string \<Rightarrow> Context list \<Rightarrow> nat option" where
  "index_of n [] = None"
| "index_of n (e # es) = (if Name e = n then Some 0 else map_option Suc (index_of n es))"

definition GetContext :: "string \<Rightarrow> Config \<Rightarrow> error + Context" where
  "GetContext n c = (case index_of n (Contexts c) of
      Some i \<Rightarrow> Inr (Contexts c ! i)
    | None \<Rightarrow> Inl ErrContextNotFound)"

text \<open>
  \<open>UpsertContext\<close> overwrites the first entry with the same name and returns; otherwise
  it appends and, when no current context is set, makes the new entry current. The error
  it returns is always \<open>nil\<close>.
\<close>

definition UpsertContext :: "Context \<Rightarrow> Config \<Rightarrow> error option \<times> Config" where
  "UpsertContext ctx c = (case index_of (Name ctx) (Contexts c) of
      Some i \<Rightarrow> (None, c\<lparr>Contexts := (Contexts c)[i := ctx]\<rparr>)
    | None \<Rightarrow>
        (let c' = c\<lparr>Contexts := Contexts c @ [ctx]\<rparr> in
         (None, if CurrentContext c' = [] then c'\<lparr>CurrentContext := Name ctx\<rparr> else c')))"

text \<open>
  \<open>DeleteContext\<close> removes the first entry with the name
  (\<open>append(c.Contexts[:idx], c.Contexts[idx+1:]...)\<close>) and clears the current name when
  it is the deleted one; an absent name is \<open>ErrContextNotFound\<close> and changes nothing.
\<close>

definition DeleteContext :: "string \<Rightarrow> Config \<Rightarrow> error option \<times> Config" where
  "DeleteContext n c = (case index_of n (Contexts c) of
      None \<Rightarrow> (Some ErrContextNotFound, c)
    | Some idx \<Rightarrow>
        (let c' = c\<lparr>Contexts := take idx (Contexts c) @ drop (idx + 1) (Contexts c)\<rparr> in
         (None, if CurrentContext c' = n then c'\<lparr>CurrentContext := []\<rparr> else c')))"

definition Validate :: "Context \<Rightarrow> error option" where
  "Validate ctx =
    (if Name ctx = [] then Some ''context name is required''
     else if Profile ctx = [] then Some ''context profile is required''
     else if TenancyOCID ctx = [] then Some ''context tenancy_ocid is required''
     else if CompartmentOCID ctx = [] then Some ''context compartment_ocid is required''
     else None)"

text \<open>
  A run of store operations, each applied to the configuration the previous one left.
\<close>

datatype store_op = Upsert Context | Delete string

fun apply_op :: "Config \<Rightarrow> store_op \<Rightarrow> Config" where
  "apply_op c (Upsert ctx) = snd (UpsertContext ctx c)"
| "apply_op c (Delete n) = snd (DeleteContext n c)"

definition run_ops :: "store_op list \<Rightarrow> Config \<Rightarrow> Config" where
  "run_ops ops c = foldl apply_op c ops"

definition names_of :: "Config \<Rightarrow> string set" where
  "names_of c = Name ` set (Contexts c)"

definition current_ok :: "Config \<Rightarrow> bool" where
  "current_ok c = (CurrentContext c = [] \<or> CurrentContext c \<in> names_of c)"

definition named :: "string \<Rightarrow> Config \<Rightarrow> Context list" where
  "named n c = filter (\<lambda>e. Name e = n) (Contexts c)"

definition ctx_dev :: Context where
  "ctx_dev = \<lparr>Name = ''dev'', Profile = ''DEFAULT'', TenancyOCID = ''ocid1.tenancy.oc1..ten'',
     CompartmentOCID = ''ocid1.compartment.oc1..a'', Region = ''us-phoenix-1'',
     User = ''ocid1.user.oc1..user'', Notes = []\<rparr>"

definition ctx_prod :: Context where
  "ctx_prod = \<lparr>Name = ''prod'', Profile = ''PROD'', TenancyOCID = ''ocid1.tenancy.oc1..zzzz'',
     CompartmentOCID = ''ocid1.compartment.oc1..yyyy'', Region = ''us-ashburn-1'',
     User = ''ocid1.user.oc1..xxxx'', Notes = []\<rparr>"

definition opts0 :: Options where
  "opts0 = \<lparr>OCIConfigPath = ''/tmp/oci'', SocketPath = ''/tmp/daemon.sock'', DefaultProfile = []\<rparr>"

definition cfg_empty :: Config where
  "cfg_empty = \<lparr>Options = opts0, Contexts = [], CurrentContext = []\<rparr>"

definition cfg_two :: Config where
  "cfg_two = \<lparr>Options = opts0, Contexts = [ctx_dev, ctx_prod], CurrentContext = ''dev''\<rparr>"

definition cfg_dup :: Config where
  "cfg_dup = \<lparr>Options = opts0, Contexts = [ctx_dev, ctx_dev\<lparr>Region := ''eu-zurich-1''\<rparr>],
     CurrentContext = ''dev''\<rparr>"

text \<open>
  \<open>Save\<close> and \<open>Load\<close> reach the file system. The disk maps a path to the document
  stored there; \<open>faults\<close> gives, for a path, the error that locking, encoding or
  writing at that path produces, if any; \<open>save_calls\<close> is a log of every call of
  \<open>Save\<close>, kept so that theorems can count them.
\<close>

record disk =
  files :: "string \<Rightarrow> Config option"
  faults :: "string \<Rightarrow> error option"
  save_calls :: "(string \<times> Config) list"

definition Save :: "string \<Rightarrow> Config \<Rightarrow> disk \<Rightarrow> error option \<times> disk" where
  "Save path c d =
    (let d' = d\<lparr>save_calls := save_calls d @ [(path, c)]\<rparr> in
     case faults d path of
       Some e \<Rightarrow> (Some e, d')
     | None \<Rightarrow> (None, d'\<lparr>files := (files d')(path \<mapsto> c)\<rparr>))"

definition Load :: "string \<Rightarrow> disk \<Rightarrow> error + Config" where
  "Load path d =
    (case faults d path of
       Some e \<Rightarrow> Inl e
     | None \<Rightarrow> (case files d path of None \<Rightarrow> Inl ''no such file'' | Some c \<Rightarrow> Inr c))"

definition disk0 :: disk where
  "disk0 = \<lparr>files = (\<lambda>p. None), faults = (\<lambda>p. None), save_calls = []\<rparr>"

section \<open>Daemon dispatcher (internal/daemon/daemon.go)\<close>

record Request =
  req_Method :: string
  req_Name :: string
  req_Format :: string
  req_Context :: string

text \<open>
  What a handler returns as \<open>interface{}\<close>: one context, the list of contexts, a map
  from strings to strings, or the map \<open>{"env": lines}\<close>.
\<close>

datatype payload =
  PContext Context
| PContexts "Context list"
| PStrMap "(string \<times> string) list"
| PEnv "string list"

record Response =
  resp_OK :: bool
  resp_Error :: string
  resp_Data :: "payload option"

record Service =
  svc_cfgPath :: string
  svc_cfg :: Config

definition ErrNotImplemented :: error where
  "ErrNotImplemented = ''method not implemented''"

definition getCurrent :: "Service \<Rightarrow> error + Context" where
  "getCurrent s =
    (if CurrentContext (svc_cfg s) = [] then Inl ''no current context set''
     else GetContext (CurrentContext (svc_cfg s)) (svc_cfg s))"

definition useContext :: "string \<Rightarrow> Service \<times> disk \<Rightarrow> (error + payload) \<times> Service \<times> disk" where
  "useContext n = (\<lambda>(s, d).
    case GetContext n (svc_cfg s) of
      Inl e \<Rightarrow> (Inl e, s, d)
    | Inr _ \<Rightarrow>
        (let s' = s\<lparr>svc_cfg := (svc_cfg s)\<lparr>CurrentContext := n\<rparr>\<rparr> in
         case Save (svc_cfgPath s') (svc_cfg s') d of
           (Some e, d') \<Rightarrow> (Inl e, s', d')
         | (None, d') \<Rightarrow> (Inr (PStrMap [(''current_context'', n)]), s', d')))"

text \<open>
  \<open>json.Unmarshal\<close> of the raw context payload belongs to the Go library: it is the
  parameter \<open>decode\<close>.
\<close>

definition addContext ::
  "(string \<Rightarrow> error + Context) \<Rightarrow> string \<Rightarrow> Service \<times> disk \<Rightarrow> (error + payload) \<times> Service \<times> disk" where
  "addContext decode raw = (\<lambda>(s, d).
    case decode raw of
      Inl e \<Rightarrow> (Inl e, s, d)
    | Inr ctx \<Rightarrow>
        (case Validate ctx of
           Some e \<Rightarrow> (Inl e, s, d)
         | None \<Rightarrow>
             (case UpsertContext ctx (svc_cfg s) of
                (Some e, c') \<Rightarrow> (Inl e, s\<lparr>svc_cfg := c'\<rparr>, d)
              | (None, c') \<Rightarrow>
                  (let s' = s\<lparr>svc_cfg := c'\<rparr> in
                   case Save (svc_cfgPath s') (svc_cfg s') d of
                     (Some e, d') \<Rightarrow> (Inl e, s', d')
                   | (None, d') \<Rightarrow> (Inr (PContext ctx), s', d')))))"

definition deleteContext :: "string \<Rightarrow> Service \<times> disk \<Rightarrow> (error + payload) \<times> Service \<times> disk" where
  "deleteContext n = (\<lambda>(s, d).
    case DeleteContext n (svc_cfg s) of
      (Some e, c') \<Rightarrow> (Inl e, s\<lparr>svc_cfg := c'\<rparr>, d)
    | (None, c') \<Rightarrow>
        (let s' = s\<lparr>svc_cfg := c'\<rparr> in
         case Save (svc_cfgPath s') (svc_cfg s') d of
           (Some e, d') \<Rightarrow> (Inl e, s', d')
         | (None, d') \<Rightarrow> (Inr (PStrMap [(''deleted'', n)]), s', d')))"

definition export :: "string \<Rightarrow> Service \<Rightarrow> error + payload" where
  "export format s =
    (case getCurrent s of
       Inl e \<Rightarrow> Inl e
     | Inr c \<Rightarrow>
         if format = ''env'' then
           (let lines = [''OCI_CLI_PROFILE='' @ Profile c,
                         ''OCI_TENANCY_OCID='' @ TenancyOCID c,
                         ''OCI_COMPARTMENT_OCID='' @ CompartmentOCID c];
                lines' = (if Region c \<noteq> [] then lines @ [''OCI_REGION='' @ Region c] else lines)
            in Inr (PEnv lines'))
         else if format = ''json'' \<or> format = [] then Inr (PContext c)
         else Inl (''unsupported format: '' @ format))"

definition handle ::
  "(string \<Rightarrow> error + Context) \<Rightarrow> Request \<Rightarrow> Service \<times> disk \<Rightarrow> (error + payload) \<times> Service \<times> disk" where
  "handle decode req = (\<lambda>(s, d).
    if req_Method req = ''get_current'' then (map_sum id PContext (getCurrent s), s, d)
    else if req_Method req = ''list'' then (Inr (PContexts (Contexts (svc_cfg s))), s, d)
    else if req_Method req = ''use_context'' then useContext (req_Name req) (s, d)
    else if req_Method req = ''add_context'' then addContext decode (req_Context req) (s, d)
    else if req_Method req = ''delete_context'' then deleteContext (req_Name req) (s, d)
    else if req_Method req = ''export'' then (export (req_Format req) s, s, d)
    else (Inl ErrNotImplemented, s, d))"

definition svc_two :: Service where
  "svc_two = \<lparr>svc_cfgPath = ''/tmp/config.yml'', svc_cfg = cfg_two\<rparr>"

definition export_req :: "string \<Rightarrow> Request" where
  "export_req f = \<lparr>req_Method = ''export'', req_Name = [], req_Format = f, req_Context = []\<rparr>"

section \<open>Framed connection loop (internal/ipc/server.go)\<close>

text \<open>
  One connection is the sequence of outcomes of \<open>ReadBytes('\n')\<close>: a line, or a read
  error (end of file included). \<open>json.Unmarshal\<close> of a request line and
  \<open>json.Marshal\<close> of a response are the parameters \<open>unmarshal\<close> and \<open>marshal\<close>
  (\<open>None\<close> is their error). The handler is a function of the shared service state.
  The loop returns at the first read error, and here also when the observed sequence ends.
  What is written to the connection is collected in order.
\<close>

datatype read_event = Line string | ReadError

definition writeResp :: "(Response \<Rightarrow> string option) \<Rightarrow> Response \<Rightarrow> string list \<Rightarrow> string list" where
  "writeResp marshal resp out =
    (case marshal resp of
       None \<Rightarrow> out
     | Some b \<Rightarrow> out @ [b @ [CHR 0x0A]])"

definition invalid_request :: Response where
  "invalid_request = \<lparr>resp_OK = False, resp_Error = ''invalid request'', resp_Data = None\<rparr>"

definition error_response :: "error \<Rightarrow> Response" where
  "error_response e = \<lparr>resp_OK = False, resp_Error = e, resp_Data = None\<rparr>"

definition ok_response :: "payload \<Rightarrow> Response" where
  "ok_response data = \<lparr>resp_OK = True, resp_Error = [], resp_Data = Some data\<rparr>"

fun handleConn ::
  "(string \<Rightarrow> Request option) \<Rightarrow> (Response \<Rightarrow> string option) \<Rightarrow>
   (Request \<Rightarrow> 's \<Rightarrow> (error + payload) \<times> 's) \<Rightarrow> read_event list \<Rightarrow> 's \<times> string list \<Rightarrow> 's \<times> string list" where
  "handleConn unmarshal marshal handler [] st = st"
| "handleConn unmarshal marshal handler (ReadError # rest) st = st"
| "handleConn unmarshal marshal handler (Line l # rest) st =
    (case unmarshal l of
       None \<Rightarrow>
         handleConn unmarshal marshal handler rest (fst st, writeResp marshal invalid_request (snd st))
     | Some req \<Rightarrow>
         (case handler req (fst st) of
            (Inl e, s') \<Rightarrow>
              handleConn unmarshal marshal handler rest (s', writeResp marshal (error_response e) (snd st))
          | (Inr data, s') \<Rightarrow>
              handleConn unmarshal marshal handler rest (s', writeResp marshal (ok_response data) (snd st))))"

text \<open>
  A small decoder, encoder and handler on which the theorems about the loop are
  instantiated: the decoder knows two request lines, the encoder writes the flag and the
  error text.
\<close>

definition demo_unmarshal :: "string \<Rightarrow> Request option" where
  \<open>demo_unmarshal l =
    (if l = ''{"method":"list"}'' @ [CHR 0x0A]
     then Some \<lparr>req_Method = ''list'', req_Name = [], req_Format = [], req_Context = []\<rparr>
     else if l = ''{"method":"export"}'' @ [CHR 0x0A]
     then Some (export_req [])
     else None)\<close>

definition demo_marshal :: "Response \<Rightarrow> string option" where
  \<open>demo_marshal r =
    Some (''{"ok":'' @ (if resp_OK r then ''true'' else ''false'')
      @ (if resp_Error r = [] then [] else '',"error":"'' @ resp_Error r @ ''"'')
      @ (case resp_Data r of None \<Rightarrow> [] | Some _ \<Rightarrow> '',"data":...'')
      @ ''}'')\<close>

definition demo_decode :: "string \<Rightarrow> error + Context" where
  "demo_decode raw = Inl ''unexpected end of JSON input''"

definition demo_handler :: "Request \<Rightarrow> Service \<times> disk \<Rightarrow> (error + payload) \<times> Service \<times> disk" where
  "demo_handler = handle demo_decode"

definition line_not_json :: string where
  "line_not_json = ''{not json'' @ [CHR 0x0A]"

definition line_export :: string where
  \<open>line_export = ''{"method":"export"}'' @ [CHR 0x0A]\<close>

definition wire_invalid :: string where
  \<open>wire_invalid = ''{"ok":false,"error":"invalid request"}''\<close>

section \<open>Tenancy grouping (tui.go)\<close>

text \<open>
  A profile of the OCI CLI configuration. The profile map is an association list with
  distinct keys; its order stands for the order in which Go happens to iterate the map.
\<close>

record Profile =
  p_User :: string
  p_Tenancy :: string
  p_Region :: string

type_synonym profiles = "(string \<times> Profile) list"

record tenancyItem =
  ti_TenancyOCID :: string
  ti_Profiles :: "string list"
  ti_Name :: string

text \<open>
  The first loop of \<open>tenanciesFromProfiles\<close>: \<open>tenantProfiles[p.Tenancy] =
  append(tenantProfiles[p.Tenancy], name)\<close>. The map is kept as its key list (in order of
  first insertion) and its value function; a missing key reads as the empty slice.
\<close>

definition tenant_add ::
  "string list \<times> (string \<Rightarrow> string list) \<Rightarrow> string \<times> Profile \<Rightarrow> string list \<times> (string \<Rightarrow> string list)" where
  "tenant_add tp np =
    ((if p_Tenancy (snd np) \<in> set (fst tp) then fst tp else fst tp @ [p_Tenancy (snd np)]),
     (snd tp)(p_Tenancy (snd np) := snd tp (p_Tenancy (snd np)) @ [fst np]))"

definition tenantProfiles :: "profiles \<Rightarrow> string list \<times> (string \<Rightarrow> string list)" where
  "tenantProfiles ps = foldl tenant_add ([], \<lambda>k. []) ps"

text \<open>
  \<open>lookupTenancyName\<close> reads the process-wide name cache; the cache is the parameter
  \<open>tenancyNames\<close>, a missing entry reads as the empty string.
\<close>

definition tenanciesFromProfiles :: "(string \<Rightarrow> string) \<Rightarrow> profiles \<Rightarrow> tenancyItem list" where
  "tenanciesFromProfiles tenancyNames ps =
    (let tp = tenantProfiles ps;
         ocids = sort (fst tp)
     in map (\<lambda>ocid. \<lparr>ti_TenancyOCID = ocid, ti_Profiles = sort (snd tp ocid),
                      ti_Name = tenancyNames ocid\<rparr>) ocids)"

definition selectProfileForTenancy :: "tenancyItem \<Rightarrow> profiles \<Rightarrow> string \<Rightarrow> string" where
  "selectProfileForTenancy item ps defaultProfile =
    (if defaultProfile \<noteq> [] \<and>
        (case map_of ps defaultProfile of
           Some p \<Rightarrow> p_Tenancy p = ti_TenancyOCID item
         | None \<Rightarrow> False)
     then defaultProfile
     else if ti_Profiles item \<noteq> [] then hd (ti_Profiles item)
     else [])"

definition profiles_ab :: profiles where
  "profiles_ab = [(''B'', \<lparr>p_User = ''u'', p_Tenancy = ''t1'', p_Region = ''r2''\<rparr>),
                  (''A'', \<lparr>p_User = ''u'', p_Tenancy = ''t1'', p_Region = ''r1''\<rparr>)]"

text \<open>
  The names of the profiles that sit on one tenancy, in the order of the map.
\<close>

definition members :: "profiles \<Rightarrow> string \<Rightarrow> string list" where
  "members ps t = map fst (filter (\<lambda>np. p_Tenancy (snd np) = t) ps)"

definition item_t1 :: tenancyItem where
  "item_t1 = \<lparr>ti_TenancyOCID = ''t1'', ti_Profiles = [''A'', ''B''], ti_Name = []\<rparr>"

section \<open>Interactive navigation (tui.go)\<close>

subsection \<open>Rows, messages, commands and the list widget\<close>

record Compartment =
  oc_ID :: string
  oc_Name :: string
  oc_Status :: string
  oc_Parent :: string

text \<open>
  A row of a list is one of the four item types; a type assertion such as
  \<open>SelectedItem().(contextItem)\<close> is a case distinction on the constructor.
\<close>

datatype item =
  ContextItem Context
| TenancyItem tenancyItem
| CompItem Compartment
| RegionItem string

datatype filter_state = Unfiltered | Filtering | FilterApplied

text \<open>
  Messages: a key press carries the value of \<open>msg.String()\<close>; the two result messages
  carry the fields of \<open>compResultMsg\<close> and \<open>regionResultMsg\<close>; every other
  message of the runtime is \<open>OtherMsg\<close>.
\<close>

datatype msg =
  KeyMsg string
| WindowSizeMsg int int
| compResultMsg string "Compartment list" "error option"
| regionResultMsg string "string list" "error option"
| OtherMsg nat

text \<open>
  Commands: \<open>nil\<close>, \<open>tea.Quit\<close>, the two fetch closures with what they capture (the
  active context and, for compartments, the parent id), and a command produced by the list
  widget that is neither \<open>nil\<close> nor \<open>tea.Quit\<close>.
\<close>

datatype widget_cmd = WNone | WQuit | WOther nat

datatype cmd =
  NoCmd
| Quit
| LoadComps Context string
| LoadRegions Context
| Widget nat

fun of_widget :: "widget_cmd \<Rightarrow> cmd" where
  "of_widget WNone = NoCmd"
| "of_widget WQuit = Quit"
| "of_widget (WOther n) = Widget n"

text \<open>
  The list widget (\<open>bubbles/list\<close>) is a library outside the repository. Its state is
  the type parameter \<open>'l\<close> and the operations the program calls on it are the fields of
  this record; the theorems hold for every widget. \<open>SetTitle\<close> stands for the
  assignment to the \<open>Title\<close> field, \<open>SetDelegate\<close> receives the density flag the
  delegate is built with, \<open>ListUpdate\<close> is the widget's own \<open>Update\<close>.
\<close>

record 'l list_ops =
  NewList :: "item list \<Rightarrow> int \<Rightarrow> int \<Rightarrow> 'l"
  Items :: "'l \<Rightarrow> item list"
  VisibleItems :: "'l \<Rightarrow> item list"
  SelectedItem :: "'l \<Rightarrow> item option"
  FilterState :: "'l \<Rightarrow> filter_state"
  SetItems :: "item list \<Rightarrow> 'l \<Rightarrow> 'l"
  Select :: "nat \<Rightarrow> 'l \<Rightarrow> 'l"
  SetFilteringEnabled :: "bool \<Rightarrow> 'l \<Rightarrow> 'l"
  SetFilterText :: "string \<Rightarrow> 'l \<Rightarrow> 'l"
  SetFilterState :: "filter_state \<Rightarrow> 'l \<Rightarrow> 'l"
  SetShowHelp :: "bool \<Rightarrow> 'l \<Rightarrow> 'l"
  SetShowStatusBar :: "bool \<Rightarrow> 'l \<Rightarrow> 'l"
  SetSize :: "int \<Rightarrow> int \<Rightarrow> 'l \<Rightarrow> 'l"
  SetTitle :: "string \<Rightarrow> 'l \<Rightarrow> 'l"
  SetDelegate :: "bool \<Rightarrow> 'l \<Rightarrow> 'l"
  ListUpdate :: "msg \<Rightarrow> 'l \<Rightarrow> 'l \<times> widget_cmd"

record 'l tuiModel =
  list_w :: 'l
  tenancies :: 'l
  cfg :: Config
  cfgPath :: string
  selected :: string
  profiles :: profiles
  err :: "error option"
  mode :: string
  ctxItem :: Context
  comps :: 'l
  regions :: 'l
  parentCrumb :: string
  compCache :: "string \<Rightarrow> Compartment list option"
  parentID :: string
  parentMap :: "string \<Rightarrow> string option"
  nameMap :: "string \<Rightarrow> string option"
  status :: string
  finalized :: bool
  crumb :: string
  regionSet :: bool
  regionCache :: "string \<Rightarrow> string list option"
  pendingSelectionID :: string
  pendingSelectionNm :: string
  pendingRegion :: string
  pendingContextName :: string
  pendingTenancyOCID :: string
  ultraCompact :: bool
  initCmd :: cmd

text \<open>
  A switch case of \<open>Update\<close> either returns a model and a command, or runs to the end
  of the switch with the model it has reached.
\<close>

datatype 'l outcome = Returned "'l tuiModel" cmd | FallsThrough "'l tuiModel"

text \<open>Reading a Go map of strings: a missing key reads as the empty string.\<close>

definition str_at :: "(string \<Rightarrow> string option) \<Rightarrow> string \<Rightarrow> string" where
  "str_at mp k = (case mp k of None \<Rightarrow> [] | Some v \<Rightarrow> v)"

definition fallbackRegions :: "string list" where
  "fallbackRegions =
    [''us-ashburn-1'', ''us-phoenix-1'', ''eu-frankfurt-1'', ''eu-zurich-1'', ''uk-london-1'',
     ''ap-tokyo-1'', ''ap-osaka-1'', ''ap-seoul-1'', ''ap-mumbai-1'', ''ap-sydney-1'',
     ''ap-melbourne-1'', ''sa-saopaulo-1'', ''ca-toronto-1'', ''af-johannesburg-1'',
     ''me-dubai-1'', ''me-jeddah-1'', ''il-jerusalem-1'']"

text \<open>The ellipsis is the three bytes of its UTF-8 encoding.\<close>

definition abbreviateOCID :: "string \<Rightarrow> string" where
  "abbreviateOCID s =
    (if length s \<le> 16 then s
     else take 6 s @ [CHR 0xE2, CHR 0x80, CHR 0xA6] @ drop (length s - 6) s)"

definition toRegionList :: "string list \<Rightarrow> item list" where
  "toRegionList rs = map RegionItem rs"

definition toList :: "Compartment list \<Rightarrow> item list" where
  "toList cs = map CompItem cs"

definition contextItemForProfile :: "string \<Rightarrow> Profile \<Rightarrow> Context" where
  "contextItemForProfile n p =
    \<lparr>Name = n, Profile = n, TenancyOCID = p_Tenancy p, CompartmentOCID = p_Tenancy p,
     Region = p_Region p, User = p_User p, Notes = []\<rparr>"


definition parentLabel :: "string \<Rightarrow> Context \<Rightarrow> string" where
  "parentLabel parent it = (if parent = TenancyOCID it then ''root'' else parent)"

text \<open>
  The loops over list items that look for a context row: the first one with a given name
  (its index, or the row), and the first context row at all.
\<close>

fun index_of_item :: "string \<Rightarrow> item list \<Rightarrow> nat option" where
  "index_of_item n [] = None"
| "index_of_item n (ContextItem ci # its) =
    (if Name ci = n then Some 0 else map_option Suc (index_of_item n its))"
| "index_of_item n (it # its) = map_option Suc (index_of_item n its)"

fun first_context :: "(Context \<Rightarrow> bool) \<Rightarrow> item list \<Rightarrow> Context option" where
  "first_context P [] = None"
| "first_context P (ContextItem ci # its) = (if P ci then Some ci else first_context P its)"
| "first_context P (it # its) = first_context P its"

definition selectInitialContext :: "item list \<Rightarrow> string \<Rightarrow> Context option" where
  "selectInitialContext its current =
    (case (if current \<noteq> [] then first_context (\<lambda>ci. Name ci = current) its else None) of
       Some ci \<Rightarrow> Some ci
     | None \<Rightarrow> first_context (\<lambda>ci. True) its)"

definition select_named :: "'l list_ops \<Rightarrow> string \<Rightarrow> 'l \<Rightarrow> 'l" where
  "select_named ops n l =
    (case index_of_item n (Items ops l) of Some i \<Rightarrow> Select ops i l | None \<Rightarrow> l)"

definition applyDensityMode :: "'l list_ops \<Rightarrow> 'l tuiModel \<Rightarrow> 'l tuiModel" where
  "applyDensityMode ops m =
    (if ultraCompact m then
       m\<lparr>list_w := SetTitle ops [] (list_w m),
         tenancies := SetTitle ops [] (tenancies m),
         comps := SetTitle ops [] (comps m),
         regions := SetTitle ops [] (regions m)\<rparr>
     else
       m\<lparr>list_w := SetTitle ops ''Select OCI context'' (list_w m),
         tenancies := SetTitle ops ''Select tenancy'' (tenancies m),
         comps := SetTitle ops
           (if parentCrumb m \<noteq> [] then ''Select compartment under '' @ parentCrumb m
            else ''Select compartment (lazy load)'') (comps m),
         regions := SetTitle ops ''Select region'' (regions m)\<rparr>)"

definition refreshDelegates :: "'l list_ops \<Rightarrow> 'l tuiModel \<Rightarrow> 'l tuiModel" where
  "refreshDelegates ops m =
    applyDensityMode ops
      (m\<lparr>list_w := SetDelegate ops (ultraCompact m) (list_w m),
         tenancies := SetDelegate ops (ultraCompact m) (tenancies m),
         comps := SetDelegate ops (ultraCompact m) (comps m),
         regions := SetDelegate ops (ultraCompact m) (regions m)\<rparr>)"

definition loadRegionsCmd :: "'l tuiModel \<Rightarrow> Context \<Rightarrow> cmd" where
  "loadRegionsCmd m ci = LoadRegions ci"

definition loadCompsCmd :: "'l tuiModel \<Rightarrow> string \<Rightarrow> cmd" where
  "loadCompsCmd m parent = LoadComps (ctxItem m) parent"

definition crumb_text :: "string \<Rightarrow> string \<Rightarrow> string" where
  "crumb_text label parent = ''Current: '' @ label @ '' ('' @ parent @ '')''"

text \<open>
  The block that several cases share: fresh parent and name maps, the cursor on
  \<open>parent\<close>, compartments mode, and the command that loads the children.
  \<open>it\<close> is the context the labels are computed against and \<open>tenancy\<close> the id
  recorded as the parent of \<open>parent\<close>.
\<close>

definition open_compartments ::
  "'l tuiModel \<Rightarrow> Context \<Rightarrow> string \<Rightarrow> string \<Rightarrow> 'l tuiModel \<times> cmd" where
  "open_compartments m it parent tenancy =
    (let m1 = m\<lparr>parentMap := (\<lambda>k. None), nameMap := (\<lambda>k. None)\<rparr>;
         m2 = m1\<lparr>parentID := parent, parentCrumb := parentLabel parent it\<rparr>;
         m3 = m2\<lparr>parentMap := (parentMap m2)(parent \<mapsto> tenancy)\<rparr>;
         m4 = m3\<lparr>nameMap := (nameMap m3)(parent \<mapsto> parentCrumb m3)\<rparr>;
         m5 = m4\<lparr>nameMap := (nameMap m4)(tenancy \<mapsto> parentLabel tenancy it)\<rparr>;
         m6 = m5\<lparr>mode := ''compartments'', status := ''Loading compartments...'',
                 crumb := crumb_text (parentCrumb m5) parent\<rparr>
     in (m6, loadCompsCmd m6 parent))"

definition start_parent :: "Context \<Rightarrow> string" where
  "start_parent it = (if CompartmentOCID it = [] then TenancyOCID it else CompartmentOCID it)"

subsection \<open>Committing\<close>

text \<open>
  \<open>finalizeSelection\<close> marks the model finalized, writes the cursor into the active
  context, makes that context current, upserts it, saves, and quits; an error of the store
  is kept in \<open>err\<close>.
\<close>

definition finalizeSelection :: "'l tuiModel \<Rightarrow> disk \<Rightarrow> ('l tuiModel \<times> cmd) \<times> disk" where
  "finalizeSelection m d =
    (let m1 = m\<lparr>finalized := True, selected := Name (ctxItem m)\<rparr>;
         m2 = m1\<lparr>ctxItem := (ctxItem m1)\<lparr>CompartmentOCID := parentID m1\<rparr>\<rparr>;
         m3 = m2\<lparr>cfg := (cfg m2)\<lparr>CurrentContext := Name (ctxItem m2)\<rparr>\<rparr>
     in case UpsertContext (ctxItem m3) (cfg m3) of
          (Some e, c') \<Rightarrow> ((m3\<lparr>cfg := c', err := Some e\<rparr>, Quit), d)
        | (None, c') \<Rightarrow>
            (let m4 = m3\<lparr>cfg := c'\<rparr> in
             case Save (cfgPath m4) (cfg m4) d of
               (Some e, d') \<Rightarrow> ((m4\<lparr>err := Some e\<rparr>, Quit), d')
             | (None, d') \<Rightarrow> ((m4, Quit), d')))"

definition saveAndQuitCurrentMode ::
  "'l list_ops \<Rightarrow> 'l tuiModel \<Rightarrow> disk \<Rightarrow> ('l tuiModel \<times> cmd) \<times> disk" where
  "saveAndQuitCurrentMode ops m d =
    (if mode m = ''contexts'' then
       (case SelectedItem ops (list_w m) of
          Some (ContextItem it) \<Rightarrow>
            (let prevCtxItem = ctxItem m;
                 m1 = m\<lparr>ctxItem := it\<rparr>;
                 parent0 = (if pendingSelectionID m1 \<noteq> [] \<and> parentID m1 \<noteq> [] \<and>
                               Name prevCtxItem = Name it
                            then parentID m1 else []);
                 parent = (if parent0 = [] then start_parent it else parent0);
                 m2 = m1\<lparr>parentID := parent, parentCrumb := parentLabel parent it\<rparr>
             in finalizeSelection m2 d)
        | _ \<Rightarrow> ((m, NoCmd), d))
     else if mode m = ''tenancies'' then
       (case SelectedItem ops (tenancies m) of
          Some (TenancyItem it) \<Rightarrow>
            (let profileName = selectProfileForTenancy it (profiles m) (DefaultProfile (Options (cfg m)))
             in case map_of (profiles m) profileName of
                  Some p \<Rightarrow>
                    (let m1 = m\<lparr>ctxItem := contextItemForProfile profileName p\<rparr>;
                         m2 = m1\<lparr>parentID := ti_TenancyOCID it,
                                 parentCrumb := parentLabel (ti_TenancyOCID it) (ctxItem m1)\<rparr>
                     in finalizeSelection m2 d)
                | None \<Rightarrow> ((m, NoCmd), d))
        | _ \<Rightarrow> ((m, NoCmd), d))
     else if mode m = ''compartments'' then finalizeSelection m d
     else if mode m = ''regions'' then
       (case SelectedItem ops (regions m) of
          Some (RegionItem n) \<Rightarrow>
            (let m1 = m\<lparr>ctxItem := (ctxItem m)\<lparr>Region := n\<rparr>, regionSet := True\<rparr>;
                 m2 = (if parentID m1 = [] then
                         m1\<lparr>parentID := start_parent (ctxItem m1),
                            parentCrumb := parentLabel (start_parent (ctxItem m1)) (ctxItem m1)\<rparr>
                       else m1)
             in finalizeSelection m2 d)
        | _ \<Rightarrow> ((m, NoCmd), d))
     else ((m, NoCmd), d))"

subsection \<open>The cases of the key switch\<close>

definition goUpOne :: "'l tuiModel \<Rightarrow> 'l tuiModel \<times> cmd" where
  "goUpOne m =
    (if parentID m = TenancyOCID (ctxItem m) then
       (m\<lparr>mode := ''contexts'', status := [], crumb := []\<rparr>, NoCmd)
     else
       (let parent0 = str_at (parentMap m) (parentID m);
            parent = (if parent0 = [] then TenancyOCID (ctxItem m) else parent0);
            m1 = m\<lparr>parentID := parent\<rparr>;
            m2 = m1\<lparr>parentCrumb := (if str_at (nameMap m1) parent \<noteq> []
                                      then str_at (nameMap m1) parent
                                      else parentLabel parent (ctxItem m1))\<rparr>;
            m3 = m2\<lparr>status := ''Loading compartments...'',
                    crumb := crumb_text (parentCrumb m2) (parentID m2)\<rparr>
        in (m3, loadCompsCmd m3 (parentID m3))))"

text \<open>
  Enter while a list is in filter input: the visible rows become the items, filtering is
  switched off and the first row is selected.
\<close>

definition apply_filter :: "'l list_ops \<Rightarrow> 'l \<Rightarrow> 'l" where
  "apply_filter ops l =
    (let vis = VisibleItems ops l;
         l1 = SetFilteringEnabled ops False (SetItems ops vis l)
     in if vis \<noteq> [] then Select ops 0 l1 else l1)"

definition key_enter :: "'l list_ops \<Rightarrow> 'l tuiModel \<Rightarrow> disk \<Rightarrow> 'l outcome \<times> disk" where
  "key_enter ops m d =
    (if mode m = ''contexts'' \<and> FilterState ops (list_w m) = Filtering then
       (Returned (m\<lparr>list_w := apply_filter ops (list_w m)\<rparr>) NoCmd, d)
     else if mode m = ''tenancies'' \<and> FilterState ops (tenancies m) = Filtering then
       (Returned (m\<lparr>tenancies := apply_filter ops (tenancies m)\<rparr>) NoCmd, d)
     else if mode m = ''compartments'' \<and> FilterState ops (comps m) = Filtering then
       (Returned (m\<lparr>comps := apply_filter ops (comps m)\<rparr>) NoCmd, d)
     else if mode m = ''regions'' \<and> FilterState ops (regions m) = Filtering then
       (Returned (m\<lparr>regions := apply_filter ops (regions m)\<rparr>) NoCmd, d)
     else if mode m = ''contexts'' then
       (case SelectedItem ops (list_w m) of
          Some (ContextItem it) \<Rightarrow>
            (let m1 = m\<lparr>ctxItem := it, pendingSelectionID := [], pendingSelectionNm := [],
                       pendingRegion := []\<rparr>;
                 r = open_compartments m1 it (start_parent it) (TenancyOCID it)
             in (Returned (fst r) (snd r), d))
        | _ \<Rightarrow> (FallsThrough m, d))
     else if mode m = ''tenancies'' then
       (if Items ops (tenancies m) = [] then
          (Returned (m\<lparr>status := ''No tenancies available''\<rparr>) NoCmd, d)
        else
          (case SelectedItem ops (tenancies m) of
             Some (TenancyItem it) \<Rightarrow>
               (let profileName = selectProfileForTenancy it (profiles m) (DefaultProfile (Options (cfg m)))
                in case map_of (profiles m) profileName of
                     None \<Rightarrow>
                       (Returned (m\<lparr>status := ''profile '' @ profileName @ '' not found''\<rparr>) NoCmd, d)
                   | Some p \<Rightarrow>
                       (let m1 = m\<lparr>ctxItem := contextItemForProfile profileName p,
                                  pendingSelectionID := [], pendingSelectionNm := [],
                                  pendingRegion := []\<rparr>;
                            m2 = m1\<lparr>list_w := select_named ops profileName (list_w m1)\<rparr>;
                            r = open_compartments m2 (ctxItem m2) (ti_TenancyOCID it) (ti_TenancyOCID it)
                        in (Returned (fst r) (snd r), d)))
           | _ \<Rightarrow> (Returned m NoCmd, d)))
     else if mode m = ''compartments'' then
       (if Items ops (comps m) = [] then
          (case finalizeSelection m d of ((m', c), d') \<Rightarrow> (Returned m' c, d'))
        else
          (case SelectedItem ops (comps m) of
             Some (CompItem oc) \<Rightarrow>
               (let m1 = m\<lparr>parentID := oc_ID oc, parentCrumb := oc_Name oc\<rparr>;
                    m2 = m1\<lparr>nameMap := (nameMap m1)(oc_ID oc \<mapsto> oc_Name oc)\<rparr>;
                    m3 = m2\<lparr>parentMap := (parentMap m2)(oc_ID oc \<mapsto> oc_Parent oc)\<rparr>;
                    m4 = m3\<lparr>pendingSelectionID := [], pendingSelectionNm := [],
                            status := ''Loading compartments...'',
                            crumb := crumb_text (parentCrumb m3) (parentID m3)\<rparr>
                in (Returned m4 (loadCompsCmd m4 (oc_ID oc)), d))
           | _ \<Rightarrow> (FallsThrough m, d)))
     else if mode m = ''regions'' then
       (if Items ops (regions m) = [] then (Returned m NoCmd, d)
        else
          (case SelectedItem ops (regions m) of
             Some (RegionItem n) \<Rightarrow>
               (Returned (m\<lparr>ctxItem := (ctxItem m)\<lparr>Region := n\<rparr>, regionSet := True,
                            mode := ''contexts'',
                            status := ''Region set to '' @ n @ '' (not saved until finalize)''\<rparr>) NoCmd, d)
           | _ \<Rightarrow> (FallsThrough m, d)))
     else (FallsThrough m, d))"

definition key_space :: "'l list_ops \<Rightarrow> 'l tuiModel \<Rightarrow> 'l tuiModel" where
  "key_space ops m =
    (if mode m = ''contexts'' then
       (case SelectedItem ops (list_w m) of
          Some (ContextItem it) \<Rightarrow>
            m\<lparr>ctxItem := it, pendingContextName := Name it, pendingSelectionID := [],
              pendingSelectionNm := [], pendingRegion := [], pendingTenancyOCID := [],
              parentID := start_parent it, parentCrumb := parentLabel (start_parent it) it,
              status := ''Context '' @ Name it @ '' selected (pending save; Ctrl+S to save)''\<rparr>
        | _ \<Rightarrow> m)
     else if mode m = ''tenancies'' then
       (case SelectedItem ops (tenancies m) of
          Some (TenancyItem it) \<Rightarrow>
            (let m1 = m\<lparr>pendingTenancyOCID := ti_TenancyOCID it\<rparr>;
                 profileName = selectProfileForTenancy it (profiles m1) (DefaultProfile (Options (cfg m1)))
             in case map_of (profiles m1) profileName of
                  Some p \<Rightarrow>
                    (let m2 = m1\<lparr>ctxItem := contextItemForProfile profileName p\<rparr> in
                     m2\<lparr>pendingContextName := profileName, pendingSelectionID := [],
                        pendingSelectionNm := [], pendingRegion := [],
                        parentID := ti_TenancyOCID it,
                        parentCrumb := parentLabel (ti_TenancyOCID it) (ctxItem m2),
                        status := ''Tenancy '' @ abbreviateOCID (ti_TenancyOCID it)
                                  @ '' selected (pending save; Ctrl+S to save)''\<rparr>)
                | None \<Rightarrow> m1)
        | _ \<Rightarrow> m)
     else if mode m = ''compartments'' then
       (case SelectedItem ops (comps m) of
          Some (CompItem oc) \<Rightarrow>
            (let m1 = m\<lparr>parentID := oc_ID oc, parentCrumb := oc_Name oc\<rparr>;
                 m2 = m1\<lparr>nameMap := (nameMap m1)(oc_ID oc \<mapsto> oc_Name oc)\<rparr>;
                 m3 = m2\<lparr>parentMap := (parentMap m2)(oc_ID oc \<mapsto> oc_Parent oc)\<rparr>
             in m3\<lparr>pendingSelectionID := oc_ID oc, pendingSelectionNm := oc_Name oc,
                   status := ''Selected '' @ oc_Name oc
                             @ '' (pending save; Enter/right to drill, Ctrl+S/q to save)''\<rparr>)
        | _ \<Rightarrow> m)
     else if mode m = ''regions'' then
       (case SelectedItem ops (regions m) of
          Some (RegionItem n) \<Rightarrow>
            m\<lparr>ctxItem := (ctxItem m)\<lparr>Region := n\<rparr>, regionSet := True, pendingRegion := n,
              status := ''Region set to '' @ n @ '' (pending save; Ctrl+S/q to save)''\<rparr>
        | _ \<Rightarrow> m)
     else m)"

definition key_back :: "'l list_ops \<Rightarrow> 'l tuiModel \<Rightarrow> 'l outcome" where
  "key_back ops m =
    (if mode m = ''compartments'' \<and> FilterState ops (comps m) \<noteq> Filtering then
       (let r = goUpOne (m\<lparr>status := ''Loading parent...''\<rparr>) in Returned (fst r) (snd r))
     else if mode m = ''tenancies'' \<and> FilterState ops (tenancies m) \<noteq> Filtering then
       Returned (m\<lparr>mode := ''contexts'', pendingSelectionID := [], pendingSelectionNm := [],
                   status := []\<rparr>) NoCmd
     else if mode m = ''regions'' \<and> FilterState ops (regions m) \<noteq> Filtering then
       Returned (m\<lparr>mode := ''contexts'', status := []\<rparr>) NoCmd
     else FallsThrough m)"

text \<open>
  Entering region mode for a context: with a cached list the list is shown and no command
  is issued; otherwise the fetch command is returned.
\<close>

definition enter_regions :: "'l list_ops \<Rightarrow> 'l tuiModel \<Rightarrow> Context \<Rightarrow> 'l outcome" where
  "enter_regions ops m it =
    (let m1 = m\<lparr>mode := ''regions'', status := ''Loading regions...''\<rparr> in
     case regionCache m1 (Name it) of
       Some cached \<Rightarrow>
         Returned (m1\<lparr>regions := Select ops 0 (SetItems ops (toRegionList cached) (regions m1)),
                      status := ''Select region (Space to stage, Ctrl+S to save)''\<rparr>) NoCmd
     | None \<Rightarrow> Returned m1 (loadRegionsCmd m1 it))"

definition key_r :: "'l list_ops \<Rightarrow> 'l tuiModel \<Rightarrow> 'l outcome" where
  "key_r ops m =
    (if mode m = ''contexts'' then
       (case SelectedItem ops (list_w m) of
          Some (ContextItem it) \<Rightarrow> enter_regions ops (m\<lparr>ctxItem := it\<rparr>) it
        | _ \<Rightarrow> FallsThrough m)
     else FallsThrough m)"

definition key_R :: "'l list_ops \<Rightarrow> 'l tuiModel \<Rightarrow> 'l outcome" where
  "key_R ops m =
    (if mode m \<noteq> ''contexts'' then enter_regions ops m (ctxItem m) else FallsThrough m)"

definition key_c :: "'l list_ops \<Rightarrow> 'l tuiModel \<Rightarrow> 'l outcome" where
  "key_c ops m =
    (if mode m = ''contexts'' then
       (case SelectedItem ops (list_w m) of
          Some (ContextItem it) \<Rightarrow>
            (let r = open_compartments (m\<lparr>ctxItem := it\<rparr>) it (start_parent it) (TenancyOCID it)
             in Returned (fst r) (snd r))
        | _ \<Rightarrow> FallsThrough m)
     else FallsThrough m)"

definition key_C :: "'l list_ops \<Rightarrow> 'l tuiModel \<Rightarrow> 'l outcome" where
  "key_C ops m =
    (if mode m \<noteq> ''contexts'' then
       (let m1 = (if ctxItem m = emptyContext then
                    (case selectInitialContext (Items ops (list_w m)) (CurrentContext (cfg m)) of
                       Some ci \<Rightarrow> m\<lparr>ctxItem := ci\<rparr>
                     | None \<Rightarrow> m)
                  else m);
            r = open_compartments m1 (ctxItem m1) (start_parent (ctxItem m1)) (TenancyOCID (ctxItem m1))
        in Returned (fst r) (snd r))
     else FallsThrough m)"

definition open_tenancies :: "'l list_ops \<Rightarrow> 'l tuiModel \<Rightarrow> 'l outcome" where
  "open_tenancies ops m =
    (if Items ops (tenancies m) = [] then Returned (m\<lparr>status := ''No tenancies available''\<rparr>) NoCmd
     else Returned (m\<lparr>mode := ''tenancies'',
                      status := ''Select tenancy (Enter to use a profile and open root)''\<rparr>) NoCmd)"

definition start_filter :: "'l list_ops \<Rightarrow> 'l \<Rightarrow> 'l" where
  "start_filter ops l = SetFilterState ops Filtering (SetFilterText ops [] (SetFilteringEnabled ops True l))"

definition key_slash :: "'l list_ops \<Rightarrow> 'l tuiModel \<Rightarrow> 'l tuiModel" where
  "key_slash ops m =
    (let m1 = (if mode m = ''contexts'' then m\<lparr>list_w := start_filter ops (list_w m)\<rparr> else m);
         m2 = (if mode m1 = ''compartments'' then m1\<lparr>comps := start_filter ops (comps m1)\<rparr> else m1);
         m3 = (if mode m2 = ''tenancies'' then m2\<lparr>tenancies := start_filter ops (tenancies m2)\<rparr> else m2)
     in if mode m3 = ''regions'' then m3\<lparr>regions := start_filter ops (regions m3)\<rparr> else m3)"

definition key_u :: "'l list_ops \<Rightarrow> 'l tuiModel \<Rightarrow> 'l tuiModel" where
  "key_u ops m =
    (let m1 = applyDensityMode ops (m\<lparr>ultraCompact := \<not> ultraCompact m\<rparr>) in
     if ultraCompact m1 then m1\<lparr>status := ''ULTRA mode: ON''\<rparr>
     else m1\<lparr>status := ''ULTRA mode: OFF''\<rparr>)"

definition key_switch :: "'l list_ops \<Rightarrow> string \<Rightarrow> 'l tuiModel \<Rightarrow> disk \<Rightarrow> 'l outcome \<times> disk" where
  "key_switch ops k m d =
    (if k = ''enter'' \<or> k = ''right'' then key_enter ops m d
     else if k = '' '' then (Returned (key_space ops m) NoCmd, d)
     else if k = ''ctrl+s'' then
       (case saveAndQuitCurrentMode ops m d of ((m', c), d') \<Rightarrow> (Returned m' c, d'))
     else if k = ''q'' then
       (case saveAndQuitCurrentMode ops m d of ((m', c), d') \<Rightarrow> (Returned m' c, d'))
     else if k = ''esc'' \<or> k = ''ctrl+c'' then (Returned m Quit, d)
     else if k = ''b'' then
       (FallsThrough (if mode m = ''contexts'' then m\<lparr>mode := ''contexts'', status := []\<rparr> else m), d)
     else if k = ''delete'' \<or> k = ''backspace'' then (key_back ops m, d)
     else if k = ''r'' then (key_r ops m, d)
     else if k = ''R'' then (key_R ops m, d)
     else if k = ''c'' then (key_c ops m, d)
     else if k = ''C'' then (key_C ops m, d)
     else if k = ''t'' then
       (if mode m = ''contexts'' then open_tenancies ops m else FallsThrough m, d)
     else if k = ''T'' then
       (if mode m \<noteq> ''contexts'' then open_tenancies ops m else FallsThrough m, d)
     else if k = ''p'' then
       (if mode m = ''contexts'' then Returned (m\<lparr>status := []\<rparr>) NoCmd else FallsThrough m, d)
     else if k = ''P'' then
       (if mode m \<noteq> ''contexts''
        then Returned (m\<lparr>mode := ''contexts'', status := [], crumb := []\<rparr>) NoCmd
        else FallsThrough m, d)
     else if k = ''/'' then (Returned (key_slash ops m) NoCmd, d)
     else if k = ''u'' then (Returned (key_u ops m) NoCmd, d)
     else (FallsThrough m, d))"

subsection \<open>Results of the asynchronous fetches\<close>

definition record_child :: "'l tuiModel \<Rightarrow> Compartment \<Rightarrow> 'l tuiModel" where
  "record_child m oc =
    m\<lparr>parentMap := (parentMap m)(oc_ID oc \<mapsto> oc_Parent oc),
      nameMap := (nameMap m)(oc_ID oc \<mapsto> oc_Name oc)\<rparr>"

definition comp_result :: "'l list_ops \<Rightarrow> string \<Rightarrow> Compartment list \<Rightarrow> 'l tuiModel \<Rightarrow> 'l tuiModel" where
  "comp_result ops parent its m =
    (let m1 = m\<lparr>compCache := (compCache m)(parent \<mapsto> its)\<rparr>;
         m2 = foldl record_child m1 its;
         m3 = m2\<lparr>comps := SetTitle ops (''Select compartment under '' @ parent)
                            (SetItems ops (toList its) (comps m2))\<rparr>
     in if its = [] then
          m3\<lparr>status := ''Leaf compartment: press backspace/delete to go up, or Enter/Space/Ctrl+S to keep current.''\<rparr>
        else m3\<lparr>status := []\<rparr>)"

text \<open>
  A failed region fetch shows the built-in list and stores it in the cache under the
  context name; a successful one stores what was fetched and shows it, or the built-in list
  when nothing was fetched.
\<close>

definition region_result ::
  "'l list_ops \<Rightarrow> string \<Rightarrow> string list \<Rightarrow> error option \<Rightarrow> 'l tuiModel \<Rightarrow> 'l tuiModel" where
  "region_result ops ctxName its e m =
    (case e of
       Some er \<Rightarrow>
         (let m1 = m\<lparr>status := ''Region fetch failed: '' @ er @ '' (showing defaults)''\<rparr>;
              m2 = m1\<lparr>regionCache := (regionCache m1)(ctxName \<mapsto> fallbackRegions)\<rparr>
          in m2\<lparr>regions := Select ops 0 (SetItems ops (toRegionList fallbackRegions) (regions m2))\<rparr>)
     | None \<Rightarrow>
         (let m1 = m\<lparr>regionCache := (regionCache m)(ctxName \<mapsto> its)\<rparr>;
              shown = (if its = [] then fallbackRegions else its)
          in m1\<lparr>regions := Select ops 0 (SetItems ops (toRegionList shown) (regions m1)),
                status := ''Select region (Space to stage, Ctrl+S to save)''\<rparr>))"

subsection \<open>Update\<close>

text \<open>The end of \<open>Update\<close>: the message goes to the list of the current mode.\<close>

definition widget_step :: "'l list_ops \<Rightarrow> msg \<Rightarrow> 'l tuiModel \<Rightarrow> 'l tuiModel \<times> cmd" where
  "widget_step ops ms m =
    (if mode m = ''contexts'' then
       (let r = ListUpdate ops ms (list_w m) in (m\<lparr>list_w := fst r\<rparr>, of_widget (snd r)))
     else if mode m = ''tenancies'' then
       (let r = ListUpdate ops ms (tenancies m) in (m\<lparr>tenancies := fst r\<rparr>, of_widget (snd r)))
     else if mode m = ''compartments'' then
       (let r = ListUpdate ops ms (comps m) in (m\<lparr>comps := fst r\<rparr>, of_widget (snd r)))
     else
       (let r = ListUpdate ops ms (regions m) in (m\<lparr>regions := fst r\<rparr>, of_widget (snd r))))"

text \<open>What follows the type switch: the two result messages, then the widget.\<close>

definition after_switch :: "'l list_ops \<Rightarrow> msg \<Rightarrow> 'l tuiModel \<Rightarrow> 'l tuiModel \<times> cmd" where
  "after_switch ops ms m =
    (case ms of
       compResultMsg parent its e \<Rightarrow>
         (case e of
            Some er \<Rightarrow> (m\<lparr>err := Some er\<rparr>, Quit)
          | None \<Rightarrow> widget_step ops ms (comp_result ops parent its m))
     | regionResultMsg ctxName its e \<Rightarrow> (region_result ops ctxName its e m, NoCmd)
     | _ \<Rightarrow> widget_step ops ms m)"

definition resize :: "'l list_ops \<Rightarrow> int \<Rightarrow> int \<Rightarrow> 'l tuiModel \<Rightarrow> 'l tuiModel" where
  "resize ops w h m =
    (if mode m = ''contexts'' then m\<lparr>list_w := SetSize ops w h (list_w m)\<rparr>
     else if mode m = ''compartments'' then m\<lparr>comps := SetSize ops w h (comps m)\<rparr>
     else if mode m = ''tenancies'' then m\<lparr>tenancies := SetSize ops w h (tenancies m)\<rparr>
     else if mode m = ''regions'' then m\<lparr>regions := SetSize ops w h (regions m)\<rparr>
     else m)"

text \<open>
  \<open>Update\<close>. While the list of the current mode is in filter input every key except
  enter goes to that list and nothing else happens; otherwise the key switch runs.
\<close>

definition Update :: "'l list_ops \<Rightarrow> msg \<Rightarrow> 'l tuiModel \<Rightarrow> disk \<Rightarrow> ('l tuiModel \<times> cmd) \<times> disk" where
  "Update ops ms m0 d =
    (let m = refreshDelegates ops m0 in
     case ms of
       WindowSizeMsg w h \<Rightarrow> (after_switch ops ms (resize ops w h m), d)
     | KeyMsg k \<Rightarrow>
         if mode m = ''contexts'' \<and> FilterState ops (list_w m) = Filtering \<and> k \<noteq> ''enter'' then
           (let r = ListUpdate ops ms (list_w m) in ((m\<lparr>list_w := fst r\<rparr>, of_widget (snd r)), d))
         else if mode m = ''tenancies'' \<and> FilterState ops (tenancies m) = Filtering \<and> k \<noteq> ''enter'' then
           (let r = ListUpdate ops ms (tenancies m) in ((m\<lparr>tenancies := fst r\<rparr>, of_widget (snd r)), d))
         else if mode m = ''compartments'' \<and> FilterState ops (comps m) = Filtering \<and> k \<noteq> ''enter'' then
           (let r = ListUpdate ops ms (comps m) in ((m\<lparr>comps := fst r\<rparr>, of_widget (snd r)), d))
         else if mode m = ''regions'' \<and> FilterState ops (regions m) = Filtering \<and> k \<noteq> ''enter'' then
           (let r = ListUpdate ops ms (regions m) in ((m\<lparr>regions := fst r\<rparr>, of_widget (snd r)), d))
         else
           (case key_switch ops k m d of
              (Returned m' c, d') \<Rightarrow> ((m', c), d')
            | (FallsThrough m', d') \<Rightarrow> (after_switch ops ms m', d'))
     | _ \<Rightarrow> (after_switch ops ms m, d))"

text \<open>
  A session: the messages are handled one after the other until a step returns
  \<open>tea.Quit\<close>. The flag tells whether the session has ended.
\<close>

fun run_session ::
  "'l list_ops \<Rightarrow> msg list \<Rightarrow> 'l tuiModel \<Rightarrow> disk \<Rightarrow> ('l tuiModel \<times> disk) \<times> bool" where
  "run_session ops [] m d = ((m, d), False)"
| "run_session ops (e # es) m d =
    (case Update ops e m d of
       ((m', c), d') \<Rightarrow> if c = Quit then ((m', d'), True) else run_session ops es m' d')"

subsection \<open>Start of a session\<close>

definition applyStartMode :: "'l list_ops \<Rightarrow> string \<Rightarrow> 'l tuiModel \<Rightarrow> 'l tuiModel" where
  "applyStartMode ops startMode m =
    (if startMode = [] \<or> startMode = ''context'' \<or> startMode = ''contexts'' then m
     else if startMode = ''region'' \<or> startMode = ''regions'' then
       (case selectInitialContext (Items ops (list_w m)) (CurrentContext (cfg m)) of
          Some ci \<Rightarrow>
            (let m1 = m\<lparr>ctxItem := ci, mode := ''regions'', status := ''Loading regions...''\<rparr>
             in m1\<lparr>initCmd := loadRegionsCmd m1 ci\<rparr>)
        | None \<Rightarrow> m)
     else if startMode = ''compartment'' \<or> startMode = ''compartments'' then
       (case selectInitialContext (Items ops (list_w m)) (CurrentContext (cfg m)) of
          Some ci \<Rightarrow>
            (let parent = start_parent ci;
                 m1 = m\<lparr>ctxItem := ci, parentID := parent, parentCrumb := parentLabel parent ci\<rparr>;
                 m2 = m1\<lparr>parentMap := (parentMap m1)(parent \<mapsto> TenancyOCID ci)\<rparr>;
                 m3 = m2\<lparr>nameMap := (nameMap m2)(parent \<mapsto> parentCrumb m2)\<rparr>;
                 m4 = m3\<lparr>nameMap := (nameMap m3)(TenancyOCID ci \<mapsto> parentLabel (TenancyOCID ci) ci)\<rparr>;
                 m5 = m4\<lparr>mode := ''compartments'', status := ''Loading compartments...'',
                         crumb := crumb_text (parentCrumb m4) parent\<rparr>
             in m5\<lparr>initCmd := loadCompsCmd m5 parent\<rparr>)
        | None \<Rightarrow> m)
     else if startMode = ''tenancy'' \<or> startMode = ''tenancies'' then
       (if Items ops (tenancies m) \<noteq> [] then
          m\<lparr>mode := ''tenancies'', status := ''Select tenancy (Enter to use a profile and open root)''\<rparr>
        else m)
     else m)"

text \<open>
  \<open>newTuiModel\<close>. \<open>termSize\<close> is what \<open>term.GetSize\<close> answers (\<open>None\<close> is its
  error); \<open>tenancyNames\<close> is the name cache after \<open>primeTenancyNames\<close> has run;
  \<open>startMode\<close> is the argument after \<open>strings.ToLower\<close> and
  \<open>strings.TrimSpace\<close>.
\<close>

definition new_list :: "'l list_ops \<Rightarrow> item list \<Rightarrow> string \<Rightarrow> int \<Rightarrow> int \<Rightarrow> 'l" where
  "new_list ops its title w h =
    SetShowStatusBar ops False (SetShowHelp ops False (SetFilteringEnabled ops True
      (SetTitle ops title (NewList ops its w h))))"

definition newTuiModel ::
  "'l list_ops \<Rightarrow> (string \<Rightarrow> string) \<Rightarrow> (int \<times> int) option \<Rightarrow> Config \<Rightarrow> string \<Rightarrow> item list \<Rightarrow>
   profiles \<Rightarrow> string \<Rightarrow> 'l tuiModel" where
  "newTuiModel ops tenancyNames termSize c path its ps startMode =
    (let w0 = (case termSize of Some (w, h) \<Rightarrow> if w > 0 then w else 80 | None \<Rightarrow> 80);
         h0 = (case termSize of Some (w, h) \<Rightarrow> if h > 0 then h - 2 else 20 | None \<Rightarrow> 20);
         defaultWidth = (if w0 < 40 then 40 else w0);
         defaultHeight = (if h0 < 10 then 10 else h0);
         l = new_list ops its ''Select OCI context'' defaultWidth defaultHeight;
         tn0 = new_list ops [] ''Select tenancy'' defaultWidth defaultHeight;
         tn = (if ps \<noteq> [] then SetItems ops (map TenancyItem (tenanciesFromProfiles tenancyNames ps)) tn0
               else tn0);
         l' = (if CurrentContext c \<noteq> [] then
                 (case index_of_item (CurrentContext c) its of Some i \<Rightarrow> Select ops i l | None \<Rightarrow> l)
               else l);
         cl = new_list ops [] ''Select compartment (lazy load)'' defaultWidth defaultHeight;
         rl = new_list ops [] ''Select region'' defaultWidth defaultHeight;
         m = \<lparr>list_w = l', tenancies = tn, cfg = c, cfgPath = path, selected = [], profiles = ps,
              err = None, mode = ''contexts'', ctxItem = emptyContext, comps = cl, regions = rl,
              parentCrumb = [], compCache = (\<lambda>k. None), parentID = [], parentMap = (\<lambda>k. None),
              nameMap = (\<lambda>k. None), status = [], finalized = False, crumb = [], regionSet = False,
              regionCache = (\<lambda>k. None), pendingSelectionID = [], pendingSelectionNm = [],
              pendingRegion = [], pendingContextName = [], pendingTenancyOCID = [],
              ultraCompact = False, initCmd = NoCmd\<rparr>
     in applyStartMode ops startMode (refreshDelegates ops m))"

subsection \<open>What the header shows as staged\<close>

definition staged_label :: "'l tuiModel \<Rightarrow> string" where
  "staged_label m =
    (let s0 = ''-'';
         s1 = (if pendingContextName m \<noteq> [] then ''ctx:'' @ pendingContextName m else s0);
         s2 = (if pendingTenancyOCID m \<noteq> [] then ''tenancy:'' @ abbreviateOCID (pendingTenancyOCID m) else s1);
         s3 = (if pendingSelectionID m \<noteq> [] then ''comp:'' @ abbreviateOCID (pendingSelectionID m) else s2)
     in if pendingRegion m \<noteq> [] then ''region:'' @ pendingRegion m else s3)"

definition filter_label :: "'l list_ops \<Rightarrow> 'l tuiModel \<Rightarrow> string" where
  "filter_label ops m =
    (if (mode m = ''contexts'' \<and> FilterState ops (list_w m) = Filtering) \<or>
        (mode m = ''tenancies'' \<and> FilterState ops (tenancies m) = Filtering) \<or>
        (mode m = ''compartments'' \<and> FilterState ops (comps m) = Filtering) \<or>
        (mode m = ''regions'' \<and> FilterState ops (regions m) = Filtering)
     then ''on'' else ''off'')"

definition compactMeta :: "'l list_ops \<Rightarrow> 'l tuiModel \<Rightarrow> string" where
  "compactMeta ops m =
    (let c0 = Name (ctxItem m);
         c1 = (if c0 = [] then CurrentContext (cfg m) else c0);
         current = (if c1 = [] then ''-'' else c1)
     in ''mode:'' @ mode m @ '' | current:'' @ current @ '' | staged:'' @ staged_label m
        @ '' | filter:'' @ filter_label ops m)"

subsection \<open>A plain list, for instantiating the theorems\<close>

text \<open>
  A list that keeps its items, a cursor and the filter state. Its filter shows every item
  and its own \<open>Update\<close> ignores every message. It serves only as the concrete widget
  of the examples.
\<close>

record simple_list =
  sl_items :: "item list"
  sl_cursor :: nat
  sl_state :: filter_state
  sl_enabled :: bool
  sl_text :: string
  sl_title :: string

definition simple_ops :: "simple_list list_ops" where
  "simple_ops =
    \<lparr>NewList = (\<lambda>its w h. \<lparr>sl_items = its, sl_cursor = 0, sl_state = Unfiltered,
                             sl_enabled = True, sl_text = [], sl_title = []\<rparr>),
     Items = sl_items,
     VisibleItems = sl_items,
     SelectedItem = (\<lambda>l. if sl_cursor l < length (sl_items l) then Some (sl_items l ! sl_cursor l) else None),
     FilterState = sl_state,
     SetItems = (\<lambda>its l. l\<lparr>sl_items := its\<rparr>),
     Select = (\<lambda>i l. l\<lparr>sl_cursor := i\<rparr>),
     SetFilteringEnabled = (\<lambda>b l. l\<lparr>sl_enabled := b, sl_state := (if b then sl_state l else Unfiltered)\<rparr>),
     SetFilterText = (\<lambda>t l. l\<lparr>sl_text := t, sl_state := FilterApplied\<rparr>),
     SetFilterState = (\<lambda>st l. l\<lparr>sl_state := st, sl_cursor := 0\<rparr>),
     SetShowHelp = (\<lambda>b l. l),
     SetShowStatusBar = (\<lambda>b l. l),
     SetSize = (\<lambda>w h l. l),
     SetTitle = (\<lambda>t l. l\<lparr>sl_title := t\<rparr>),
     SetDelegate = (\<lambda>b l. l),
     ListUpdate = (\<lambda>ms l. (l, WNone))\<rparr>"

definition tui_empty :: "simple_list tuiModel" where
  "tui_empty = newTuiModel simple_ops (\<lambda>t. []) None cfg_empty ''/tmp/config.yml'' [] [] []"

definition cfg_dev :: Config where
  "cfg_dev = \<lparr>Options = opts0, Contexts = [ctx_dev], CurrentContext = []\<rparr>"

definition tui_dev :: "simple_list tuiModel" where
  "tui_dev = newTuiModel simple_ops (\<lambda>t. []) None cfg_dev ''/tmp/config.yml'' [ContextItem ctx_dev] [] []"

subsection \<open>Notions used to state the theorems\<close>

text \<open>
  The model and the command of an outcome; whether the list of the current mode is in
  filter input; the five staging fields; whether a commit finds a row to fold into the
  active context; what a committing step looks like; the messages that change a staged
  selection; and the commands a session returns, step by step.

  \<open>Update\<close> begins with \<open>refreshDelegates\<close> and reads the lists only afterwards, so
  the theorems state their conditions on the lists of \<open>refreshDelegates ops m\<close>; the
  other fields of that model are those of \<open>m\<close>.
\<close>

fun out_model :: "'l outcome \<Rightarrow> 'l tuiModel" where
  "out_model (Returned m c) = m"
| "out_model (FallsThrough m) = m"

fun out_cmd :: "'l outcome \<Rightarrow> cmd" where
  "out_cmd (Returned m c) = c"
| "out_cmd (FallsThrough m) = NoCmd"

definition filtering :: "'l list_ops \<Rightarrow> 'l tuiModel \<Rightarrow> bool" where
  "filtering ops m =
    ((mode m = ''contexts'' \<and> FilterState ops (list_w m) = Filtering) \<or>
     (mode m = ''tenancies'' \<and> FilterState ops (tenancies m) = Filtering) \<or>
     (mode m = ''compartments'' \<and> FilterState ops (comps m) = Filtering) \<or>
     (mode m = ''regions'' \<and> FilterState ops (regions m) = Filtering))"

definition pend :: "'l tuiModel \<Rightarrow> string \<times> string \<times> string \<times> string \<times> string" where
  "pend m = (pendingSelectionID m, pendingSelectionNm m, pendingRegion m, pendingContextName m,
             pendingTenancyOCID m)"

definition commit_ready :: "'l list_ops \<Rightarrow> 'l tuiModel \<Rightarrow> bool" where
  "commit_ready ops m =
    (if mode m = ''contexts'' then
       (case SelectedItem ops (list_w m) of Some (ContextItem it) \<Rightarrow> True | _ \<Rightarrow> False)
     else if mode m = ''tenancies'' then
       (case SelectedItem ops (tenancies m) of
          Some (TenancyItem it) \<Rightarrow>
            map_of (profiles m) (selectProfileForTenancy it (profiles m) (DefaultProfile (Options (cfg m)))) \<noteq> None
        | _ \<Rightarrow> False)
     else if mode m = ''compartments'' then True
     else if mode m = ''regions'' then
       (case SelectedItem ops (regions m) of Some (RegionItem n) \<Rightarrow> True | _ \<Rightarrow> False)
     else False)"

definition committed_step :: "'l tuiModel \<Rightarrow> disk \<Rightarrow> 'l tuiModel \<Rightarrow> cmd \<Rightarrow> disk \<Rightarrow> bool" where
  "committed_step m d m' c d' =
    (c = Quit \<and> finalized m' \<and> save_calls d' = save_calls d @ [(cfgPath m, cfg m')])"


fun session_cmds :: "'l list_ops \<Rightarrow> msg list \<Rightarrow> 'l tuiModel \<Rightarrow> disk \<Rightarrow> cmd list" where
  "session_cmds ops [] m d = []"
| "session_cmds ops (e # es) m d =
    (case Update ops e m d of
       ((m', c), d') \<Rightarrow> c # (if c = Quit then [] else session_cmds ops es m' d'))"

subsection \<open>Example sessions\<close>




definition tui_regions :: "simple_list tuiModel" where
  "tui_regions = fst (fst (Update simple_ops (KeyMsg ''r'') tui_dev disk0))"

definition tui_failed :: "simple_list tuiModel" where
  "tui_failed = region_result simple_ops ''dev'' [] (Some ''timeout'')
     (refreshDelegates simple_ops tui_regions)"

definition tui_back :: "simple_list tuiModel" where
  "tui_back = fst (fst (Update simple_ops (KeyMsg ''backspace'') tui_failed disk0))"

definition tui_leaf :: "simple_list tuiModel" where
  "tui_leaf = fst (fst (run_session simple_ops
     [KeyMsg ''c'', compResultMsg ''ocid1.compartment.oc1..a'' [] None] tui_dev disk0))"

definition tui_leaf_filtering :: "simple_list tuiModel" where
  "tui_leaf_filtering = fst (fst (Update simple_ops (KeyMsg ''/'') tui_leaf disk0))"

section \<open>Proofs: context store\<close>

subsection \<open>Facts about the search loop\<close>

lemma index_of_None: "index_of n xs = None \<longleftrightarrow> n \<notin> Name ` set xs"
  by (induction xs) auto

lemma index_of_Some:
  "index_of n xs = Some i \<Longrightarrow> i < length xs \<and> Name (xs ! i) = n \<and> (\<forall>j<i. Name (xs ! j) \<noteq> n)"
proof (induction xs arbitrary: i)
  case Nil
  then show ?case by simp
next
  case (Cons e es)
  show ?case
  proof (cases "Name e = n")
    case True
    with Cons.prems show ?thesis by simp
  next
    case False
    with Cons.prems obtain k where k: "index_of n es = Some k" "i = Suc k"
      by auto
    from Cons.IH [OF k(1)] have ih: "k < length es" "Name (es ! k) = n" "\<forall>j<k. Name (es ! j) \<noteq> n"
      by auto
    show ?thesis
    proof (intro conjI allI impI)
      show "i < length (e # es)" using ih(1) k(2) by simp
      show "Name ((e # es) ! i) = n" using ih(2) k(2) by simp
      fix j assume "j < i"
      then show "Name ((e # es) ! j) \<noteq> n"
        using False ih(3) k(2) by (cases j) auto
    qed
  qed
qed

lemma names_update:
  assumes "i < length xs" "Name (xs ! i) = Name x"
  shows "Name ` set (xs[i := x]) = Name ` set xs"
proof -
  have "map Name (xs[i := x]) = (map Name xs)[i := Name x]"
    by (simp add: map_update)
  also have "\<dots> = map Name xs"
    using assms by (metis length_map list_update_id nth_map)
  finally have "set (map Name (xs[i := x])) = set (map Name xs)" by simp
  then show ?thesis by simp
qed

lemma names_of_upsert: "names_of (snd (UpsertContext ctx c)) = insert (Name ctx) (names_of c)"
proof (cases "index_of (Name ctx) (Contexts c)")
  case None
  then show ?thesis
    by (auto simp: UpsertContext_def names_of_def Let_def)
next
  case (Some i)
  from index_of_Some [OF Some] have i: "i < length (Contexts c)" "Name (Contexts c ! i) = Name ctx"
    by auto
  have "Name ctx \<in> Name ` set (Contexts c)"
    using i by (metis imageI nth_mem)
  then show ?thesis
    using Some names_update [OF i] by (auto simp: UpsertContext_def names_of_def)
qed

lemma current_upsert:
  "CurrentContext (snd (UpsertContext ctx c)) =
     (if index_of (Name ctx) (Contexts c) = None \<and> CurrentContext c = [] then Name ctx
      else CurrentContext c)"
  by (auto simp: UpsertContext_def Let_def split: option.splits)

lemma current_ok_upsert: "current_ok c \<Longrightarrow> current_ok (snd (UpsertContext ctx c))"
  unfolding current_ok_def names_of_upsert current_upsert by auto

lemma names_remove_other:
  assumes "idx < length xs" "m \<in> Name ` set xs" "m \<noteq> Name (xs ! idx)"
  shows "m \<in> Name ` set (take idx xs @ drop (Suc idx) xs)"
proof -
  from assms(2) obtain e where e: "e \<in> set xs" "Name e = m" by auto
  have "xs = take idx xs @ (xs ! idx) # drop (Suc idx) xs"
    using assms(1) by (simp add: id_take_nth_drop)
  then have "set xs = set (take idx xs @ drop (Suc idx) xs) \<union> {xs ! idx}"
    by (metis Un_insert_right list.simps(15) set_append sup_bot.right_neutral)
  with e assms(3) have "e \<in> set (take idx xs @ drop (Suc idx) xs)" by auto
  with e(2) show ?thesis by blast
qed

lemma current_ok_delete: "current_ok c \<Longrightarrow> current_ok (snd (DeleteContext n c))"
proof (cases "index_of n (Contexts c)")
  case None
  assume "current_ok c"
  with None show ?thesis by (simp add: DeleteContext_def)
next
  case (Some idx)
  assume ok: "current_ok c"
  from index_of_Some [OF Some] have i: "idx < length (Contexts c)" "Name (Contexts c ! idx) = n"
    by auto
  show ?thesis
  proof (cases "CurrentContext c = n \<or> CurrentContext c = []")
    case True
    with Some show ?thesis by (auto simp: DeleteContext_def current_ok_def Let_def)
  next
    case False
    with ok have "CurrentContext c \<in> Name ` set (Contexts c)"
      by (simp add: current_ok_def names_of_def)
    from names_remove_other [OF i(1) this] False i(2)
    have "CurrentContext c \<in> Name ` set (take idx (Contexts c) @ drop (Suc idx) (Contexts c))"
      by auto
    with Some False show ?thesis
      by (simp add: DeleteContext_def current_ok_def names_of_def Let_def)
  qed
qed

lemma current_ok_apply: "current_ok c \<Longrightarrow> current_ok (apply_op c op)"
  by (cases op) (simp_all add: current_ok_upsert current_ok_delete)

lemma current_ok_foldl: "current_ok c \<Longrightarrow> current_ok (foldl apply_op c ops)"
  by (induction ops arbitrary: c) (simp_all add: current_ok_apply)

lemma delete_current_clears:
  "current_ok c \<Longrightarrow> CurrentContext (snd (DeleteContext (CurrentContext c) c)) = []"
  by (auto simp: DeleteContext_def current_ok_def names_of_def Let_def index_of_None
      split: option.splits)

lemma filter_update_single:
  assumes "length (filter P xs) \<le> 1" "i < length xs" "P (xs ! i)" "P x"
  shows "filter P (xs[i := x]) = [x]"
proof -
  have split: "xs = take i xs @ (xs ! i) # drop (Suc i) xs"
    using assms(2) by (simp add: id_take_nth_drop)
  have "length (filter P (take i xs @ (xs ! i) # drop (Suc i) xs)) \<le> 1"
    using assms(1) split by simp
  then have "filter P (take i xs) = []" "filter P (drop (Suc i) xs) = []"
    using assms(3) by simp_all
  moreover have "xs[i := x] = take i xs @ x # drop (Suc i) xs"
    using assms(2) by (simp add: upd_conv_take_nth_drop)
  ultimately show ?thesis using assms(4) by simp
qed

lemma named_upsert_single:
  assumes "length (named (Name x) c) \<le> 1"
  shows "named (Name x) (snd (UpsertContext x c)) = [x]"
proof (cases "index_of (Name x) (Contexts c)")
  case None
  then have "Name x \<notin> Name ` set (Contexts c)" by (simp add: index_of_None)
  then have "\<forall>e \<in> set (Contexts c). Name e \<noteq> Name x"
    by (metis imageI)
  then have "filter (\<lambda>e. Name e = Name x) (Contexts c) = []"
    by (simp add: filter_empty_conv)
  with None show ?thesis by (simp add: UpsertContext_def named_def Let_def)
next
  case (Some i)
  from index_of_Some [OF Some] have i: "i < length (Contexts c)" "Name (Contexts c ! i) = Name x"
    by auto
  from filter_update_single [of "\<lambda>e. Name e = Name x" "Contexts c" i x] assms i
  have "filter (\<lambda>e. Name e = Name x) ((Contexts c)[i := x]) = [x]"
    by (simp add: named_def)
  with Some show ?thesis by (simp add: UpsertContext_def named_def)
qed

lemma length_upsert:
  "length (Contexts (snd (UpsertContext x c))) =
     (if Name x \<in> names_of c then length (Contexts c) else Suc (length (Contexts c)))"
  by (auto simp: UpsertContext_def names_of_def Let_def index_of_None [symmetric]
      split: option.splits)

section \<open>Claims about the context store\<close>

text \<open>
  C2. Starting from a configuration whose current name is empty or names a stored context,
  every run of upsert and delete operations ends in a configuration whose current name is
  again empty or the name of a stored context; and deleting the context that is current
  there leaves the current name empty.
\<close>

theorem C2_current_never_dangling:
  assumes "current_ok c"
  shows "current_ok (run_ops ops c) \<and>
         CurrentContext (snd (DeleteContext (CurrentContext (run_ops ops c)) (run_ops ops c))) = []"
proof -
  have ok: "current_ok (run_ops ops c)"
    unfolding run_ops_def using assms by (rule current_ok_foldl)
  from delete_current_clears [OF ok] ok show ?thesis by simp
qed

theorem C2_current_never_dangling_witness:
  "current_ok cfg_two \<and>
   current_ok (run_ops [Delete ''dev'', Upsert ctx_dev, Delete ''prod''] cfg_two) \<and>
   CurrentContext (run_ops [Delete ''dev'', Upsert ctx_dev, Delete ''prod''] cfg_two) = ''dev'' \<and>
   CurrentContext (snd (DeleteContext ''dev''
      (run_ops [Delete ''dev'', Upsert ctx_dev, Delete ''prod''] cfg_two))) = []"
proof -
  have h: "current_ok cfg_two"
    by (simp add: current_ok_def names_of_def cfg_two_def ctx_dev_def)
  have cur: "CurrentContext (run_ops [Delete ''dev'', Upsert ctx_dev, Delete ''prod''] cfg_two) = ''dev''"
    by (simp add: run_ops_def cfg_two_def ctx_dev_def ctx_prod_def DeleteContext_def
        UpsertContext_def Let_def)
  from C2_current_never_dangling [OF h, of "[Delete ''dev'', Upsert ctx_dev, Delete ''prod'']"] h cur
  show ?thesis by simp
qed

text \<open>
  C6, as amended. When at most one stored context carries the name, upserting two contexts
  of that name one after the other leaves exactly one stored context of that name, equal
  to the second, and the list has grown by at most one entry. (A configuration that already
  stores the name twice keeps its later duplicates: only the first match is overwritten.)
\<close>

theorem C6_upsert_twice_one_entry:
  assumes "Name a = Name b" and "length (named (Name a) c) \<le> 1"
  shows "named (Name b) (snd (UpsertContext b (snd (UpsertContext a c)))) = [b] \<and>
         length (Contexts (snd (UpsertContext b (snd (UpsertContext a c))))) \<le> length (Contexts c) + 1"
proof -
  let ?c1 = "snd (UpsertContext a c)"
  have one: "named (Name a) ?c1 = [a]"
    using assms(2) by (rule named_upsert_single)
  then have "length (named (Name b) ?c1) \<le> 1"
    using assms(1) by simp
  then have two: "named (Name b) (snd (UpsertContext b ?c1)) = [b]"
    by (rule named_upsert_single)
  have "Name b \<in> names_of ?c1"
    using assms(1) by (simp add: names_of_upsert)
  then have "length (Contexts (snd (UpsertContext b ?c1))) = length (Contexts ?c1)"
    by (simp add: length_upsert)
  also have "\<dots> \<le> length (Contexts c) + 1"
    by (simp add: length_upsert)
  finally show ?thesis using two by simp
qed

theorem C6_upsert_twice_one_entry_witness:
  "Name ctx_dev = Name (ctx_dev\<lparr>Region := ''ap-tokyo-1''\<rparr>) \<and>
   length (named (Name ctx_dev) cfg_two) \<le> 1 \<and>
   named ''dev'' (snd (UpsertContext (ctx_dev\<lparr>Region := ''ap-tokyo-1''\<rparr>)
      (snd (UpsertContext ctx_dev cfg_two)))) = [ctx_dev\<lparr>Region := ''ap-tokyo-1''\<rparr>] \<and>
   length (Contexts (snd (UpsertContext (ctx_dev\<lparr>Region := ''ap-tokyo-1''\<rparr>)
      (snd (UpsertContext ctx_dev cfg_two))))) \<le> 3"
proof -
  have h1: "Name ctx_dev = Name (ctx_dev\<lparr>Region := ''ap-tokyo-1''\<rparr>)" by simp
  have h2: "length (named (Name ctx_dev) cfg_two) \<le> 1"
    by (simp add: named_def cfg_two_def ctx_dev_def ctx_prod_def)
  have n: "Name (ctx_dev\<lparr>Region := ''ap-tokyo-1''\<rparr>) = ''dev''" by (simp add: ctx_dev_def)
  have l: "length (Contexts cfg_two) + 1 = 3" by (simp add: cfg_two_def)
  from C6_upsert_twice_one_entry [OF h1 h2] h1 h2 n l show ?thesis by simp
qed

text \<open>
  The claim as written, for every configuration, fails on a configuration that already
  holds two contexts named \<open>dev\<close>: after the two upserts it still holds two.
\<close>

theorem C6_duplicate_names_counterexample:
  "Name (ctx_dev\<lparr>Notes := ''first''\<rparr>) = Name (ctx_dev\<lparr>Notes := ''second''\<rparr>) \<and>
   named ''dev'' (snd (UpsertContext (ctx_dev\<lparr>Notes := ''second''\<rparr>)
      (snd (UpsertContext (ctx_dev\<lparr>Notes := ''first''\<rparr>) cfg_dup)))) =
     [ctx_dev\<lparr>Notes := ''second''\<rparr>, ctx_dev\<lparr>Region := ''eu-zurich-1''\<rparr>]"
  by (simp add: named_def cfg_dup_def ctx_dev_def UpsertContext_def)

text \<open>
  C9. An upsert leaves a non-empty current name as it was; every stored context whose name
  differs from the upserted one stays at its index with its fields; the current name
  changes only when it was empty and the name was not stored, and then it becomes the
  upserted name; the options are untouched.
\<close>

theorem C9_upsert_frame:
  "(CurrentContext c \<noteq> [] \<longrightarrow> CurrentContext (snd (UpsertContext ctx c)) = CurrentContext c) \<and>
   (\<forall>i < length (Contexts c). Name (Contexts c ! i) \<noteq> Name ctx \<longrightarrow>
        i < length (Contexts (snd (UpsertContext ctx c))) \<and>
        Contexts (snd (UpsertContext ctx c)) ! i = Contexts c ! i) \<and>
   (CurrentContext (snd (UpsertContext ctx c)) \<noteq> CurrentContext c \<longrightarrow>
        CurrentContext c = [] \<and> Name ctx \<notin> names_of c \<and>
        CurrentContext (snd (UpsertContext ctx c)) = Name ctx) \<and>
   (CurrentContext c = [] \<and> Name ctx \<notin> names_of c \<longrightarrow>
        CurrentContext (snd (UpsertContext ctx c)) = Name ctx) \<and>
   Options (snd (UpsertContext ctx c)) = Options c"
proof (cases "index_of (Name ctx) (Contexts c)")
  case None
  then have "Name ctx \<notin> names_of c" by (simp add: index_of_None names_of_def)
  with None show ?thesis
    by (auto simp: UpsertContext_def Let_def nth_append)
next
  case (Some k)
  from index_of_Some [OF Some] have k: "k < length (Contexts c)" "Name (Contexts c ! k) = Name ctx"
    by auto
  then have "Name ctx \<in> names_of c"
    unfolding names_of_def by (metis imageI nth_mem)
  with Some k show ?thesis
    by (auto simp: UpsertContext_def nth_list_update)
qed

theorem C9_upsert_frame_witness:
  "CurrentContext cfg_two \<noteq> [] \<and>
   CurrentContext (snd (UpsertContext (ctx_prod\<lparr>Region := ''uk-london-1''\<rparr>) cfg_two)) = ''dev'' \<and>
   Contexts (snd (UpsertContext (ctx_prod\<lparr>Region := ''uk-london-1''\<rparr>) cfg_two)) ! 0 = ctx_dev \<and>
   CurrentContext (snd (UpsertContext ctx_dev cfg_empty)) = ''dev''"
proof -
  have a: "CurrentContext cfg_two \<noteq> []" "CurrentContext cfg_two = ''dev''"
    by (simp_all add: cfg_two_def)
  have b: "(0::nat) < length (Contexts cfg_two)" "Contexts cfg_two ! 0 = ctx_dev"
    "Name (Contexts cfg_two ! 0) \<noteq> Name (ctx_prod\<lparr>Region := ''uk-london-1''\<rparr>)"
    by (simp_all add: cfg_two_def ctx_dev_def ctx_prod_def)
  have c: "CurrentContext cfg_empty = []" "Name ctx_dev \<notin> names_of cfg_empty" "Name ctx_dev = ''dev''"
    by (simp_all add: cfg_empty_def names_of_def ctx_dev_def)
  note f = C9_upsert_frame [of cfg_two "ctx_prod\<lparr>Region := ''uk-london-1''\<rparr>"]
  from f a(1)
  have 1: "CurrentContext (snd (UpsertContext (ctx_prod\<lparr>Region := ''uk-london-1''\<rparr>) cfg_two)) =
      CurrentContext cfg_two"
    by blast
  from f b(1) b(3)
  have 2: "Contexts (snd (UpsertContext (ctx_prod\<lparr>Region := ''uk-london-1''\<rparr>) cfg_two)) ! 0 =
      Contexts cfg_two ! 0"
    by blast
  from C9_upsert_frame [of cfg_empty ctx_dev] c(1) c(2)
  have 3: "CurrentContext (snd (UpsertContext ctx_dev cfg_empty)) = Name ctx_dev"
    by blast
  from a 1 2 3 b(2) c(3) show ?thesis by simp
qed

section \<open>Claims about tenancy grouping\<close>

lemma tenant_fold_snd:
  "snd (foldl tenant_add tp ps) t = snd tp t @ map fst (filter (\<lambda>np. p_Tenancy (snd np) = t) ps)"
  by (induction ps arbitrary: tp) (auto simp: tenant_add_def)

lemma tenant_fold_set:
  "set (fst (foldl tenant_add tp ps)) = set (fst tp) \<union> (\<lambda>np. p_Tenancy (snd np)) ` set ps"
  by (induction ps arbitrary: tp) (auto simp: tenant_add_def)

lemma tenant_fold_distinct:
  "distinct (fst tp) \<Longrightarrow> distinct (fst (foldl tenant_add tp ps))"
  by (induction ps arbitrary: tp) (auto simp: tenant_add_def)

lemma item_profiles:
  "it \<in> set (tenanciesFromProfiles nm ps) \<Longrightarrow>
     ti_Profiles it = sort (members ps (ti_TenancyOCID it)) \<and>
     ti_TenancyOCID it \<in> (\<lambda>np. p_Tenancy (snd np)) ` set ps \<and>
     ti_Name it = nm (ti_TenancyOCID it)"
  by (force simp: tenanciesFromProfiles_def Let_def tenantProfiles_def tenant_fold_snd
      tenant_fold_set members_def)

lemma item_ocids:
  "map ti_TenancyOCID (tenanciesFromProfiles nm ps) = sort (fst (tenantProfiles ps))"
  by (simp add: tenanciesFromProfiles_def Let_def comp_def)

lemma members_set:
  assumes "distinct (map fst ps)"
  shows "set (members ps t) = {n. \<exists>p. map_of ps n = Some p \<and> p_Tenancy p = t}"
  using assms by (auto simp: members_def image_iff)

lemma members_distinct: "distinct (map fst ps) \<Longrightarrow> distinct (members ps t)"
  unfolding members_def by (simp add: distinct_map_filter)

lemma hd_sort_least:
  fixes xs :: "'a::linorder list"
  shows "x \<in> set xs \<Longrightarrow> hd (sort xs) \<le> x"
proof -
  assume x: "x \<in> set xs"
  then have ne: "sort xs \<noteq> []" by (metis empty_iff empty_set set_sort)
  then obtain y ys where s: "sort xs = y # ys" by (cases "sort xs") auto
  have "sorted (y # ys)" using s by (metis sorted_sort)
  moreover have "x \<in> set (y # ys)" using x s by (metis set_sort)
  ultimately show ?thesis using s by auto
qed

text \<open>
  C7. The profiles are grouped into one item per tenancy id (the items are ordered by id
  and no id occurs twice); the profile list of an item holds exactly the names of the
  profiles on that tenancy, sorted, so its head is the least name; and
  \<open>selectProfileForTenancy\<close> answers the configured default profile when that is
  non-empty, exists and sits on the tenancy, and the head of the list otherwise.
\<close>

theorem C7_tenancy_grouping:
  assumes "distinct (map fst ps)"
  shows "distinct (map ti_TenancyOCID (tenanciesFromProfiles nm ps)) \<and>
         sorted (map ti_TenancyOCID (tenanciesFromProfiles nm ps)) \<and>
         set (map ti_TenancyOCID (tenanciesFromProfiles nm ps)) = (\<lambda>np. p_Tenancy (snd np)) ` set ps \<and>
         (\<forall>it \<in> set (tenanciesFromProfiles nm ps).
            sorted (ti_Profiles it) \<and> distinct (ti_Profiles it) \<and> ti_Profiles it \<noteq> [] \<and>
            set (ti_Profiles it) = {n. \<exists>p. map_of ps n = Some p \<and> p_Tenancy p = ti_TenancyOCID it} \<and>
            (\<forall>n \<in> set (ti_Profiles it). hd (ti_Profiles it) \<le> n) \<and>
            selectProfileForTenancy it ps dflt =
              (if dflt \<noteq> [] \<and> (\<exists>p. map_of ps dflt = Some p \<and> p_Tenancy p = ti_TenancyOCID it)
               then dflt else hd (ti_Profiles it)))"
proof (intro conjI ballI)
  show "distinct (map ti_TenancyOCID (tenanciesFromProfiles nm ps))"
    unfolding item_ocids tenantProfiles_def by (simp add: tenant_fold_distinct)
  show "sorted (map ti_TenancyOCID (tenanciesFromProfiles nm ps))"
    unfolding item_ocids by simp
  show "set (map ti_TenancyOCID (tenanciesFromProfiles nm ps)) = (\<lambda>np. p_Tenancy (snd np)) ` set ps"
    unfolding item_ocids tenantProfiles_def by (simp add: tenant_fold_set)
next
  fix it assume it: "it \<in> set (tenanciesFromProfiles nm ps)"
  from item_profiles [OF it]
  have pr: "ti_Profiles it = sort (members ps (ti_TenancyOCID it))"
    and t: "ti_TenancyOCID it \<in> (\<lambda>np. p_Tenancy (snd np)) ` set ps" by auto
  show "sorted (ti_Profiles it)" by (simp add: pr)
  show "distinct (ti_Profiles it)" using assms by (simp add: pr members_distinct)
  from t have "members ps (ti_TenancyOCID it) \<noteq> []"
    by (force simp: members_def filter_empty_conv)
  then show ne: "ti_Profiles it \<noteq> []"
    unfolding pr by (metis length_0_conv length_sort)
  show "set (ti_Profiles it) = {n. \<exists>p. map_of ps n = Some p \<and> p_Tenancy p = ti_TenancyOCID it}"
    using members_set [OF assms] by (simp add: pr)
  show "selectProfileForTenancy it ps dflt =
      (if dflt \<noteq> [] \<and> (\<exists>p. map_of ps dflt = Some p \<and> p_Tenancy p = ti_TenancyOCID it)
       then dflt else hd (ti_Profiles it))"
    using ne by (auto simp: selectProfileForTenancy_def split: option.splits)
next
  fix it n assume it: "it \<in> set (tenanciesFromProfiles nm ps)" and n: "n \<in> set (ti_Profiles it)"
  from item_profiles [OF it]
  have pr: "ti_Profiles it = sort (members ps (ti_TenancyOCID it))" by simp
  from n show "hd (ti_Profiles it) \<le> n"
    unfolding pr by (simp add: hd_sort_least)
qed


theorem C7_tenancy_grouping_witness:
  "distinct (map fst profiles_ab) \<and>
   tenanciesFromProfiles (\<lambda>t. []) profiles_ab = [item_t1] \<and>
   selectProfileForTenancy item_t1 profiles_ab [] = ''A''"
proof -
  have h: "distinct (map fst profiles_ab)" by (simp add: profiles_ab_def)
  have items: "tenanciesFromProfiles (\<lambda>t. []) profiles_ab = [item_t1]"
    by (simp add: tenanciesFromProfiles_def tenantProfiles_def tenant_add_def profiles_ab_def
        item_t1_def Let_def)
  from C7_tenancy_grouping [OF h, of "\<lambda>t. []" "[]"]
  have "\<forall>it \<in> set (tenanciesFromProfiles (\<lambda>t. []) profiles_ab).
      selectProfileForTenancy it profiles_ab [] =
        (if [] \<noteq> ([]::string) \<and> (\<exists>p. map_of profiles_ab [] = Some p \<and> p_Tenancy p = ti_TenancyOCID it)
         then [] else hd (ti_Profiles it))"
    by blast
  then have "selectProfileForTenancy item_t1 profiles_ab [] = hd (ti_Profiles item_t1)"
    unfolding items by simp
  then have "selectProfileForTenancy item_t1 profiles_ab [] = ''A''"
    by (simp add: item_t1_def)
  with h items show ?thesis by simp
qed

section \<open>Claims about the daemon\<close>

lemma export_cases:
  "getCurrent s = Inr c \<Longrightarrow>
     export f s =
       (if f = ''env'' then export ''env'' s
        else if f = ''json'' \<or> f = [] then Inr (PContext c)
        else Inl (''unsupported format: '' @ f))"
  by (simp add: export_def)

lemma export_env_Inr: "getCurrent s = Inr c \<Longrightarrow> \<exists>ls. export ''env'' s = Inr (PEnv ls)"
  by (simp add: export_def Let_def)

text \<open>
  C10. The export method with an empty format answers exactly what it answers for
  \<open>json\<close>; the dispatcher passes an export request to \<open>export\<close> and leaves
  the service and the disk as they were; and when the current context resolves, the empty
  format yields that context as the payload, \<open>env\<close> yields the env lines, and an
  error is returned exactly for the formats other than \<open>env\<close>, \<open>json\<close> and
  the empty string, where it is the unsupported-format error.
\<close>

theorem C10_export_empty_format:
  "export [] s = export ''json'' s \<and>
   (req_Method req = ''export'' \<longrightarrow>
      handle decode req (s, d) = (export (req_Format req) s, s, d)) \<and>
   (getCurrent s = Inr c \<longrightarrow>
      export [] s = Inr (PContext c) \<and>
      (\<exists>ls. export ''env'' s = Inr (PEnv ls)) \<and>
      ((\<exists>e. export f s = Inl e) \<longleftrightarrow> f \<notin> {''env'', ''json'', []}) \<and>
      (f \<notin> {''env'', ''json'', []} \<longrightarrow> export f s = Inl (''unsupported format: '' @ f)))"
proof (intro conjI impI)
  show "export [] s = export ''json'' s"
    by (simp add: export_def split: sum.splits)
  show "handle decode req (s, d) = (export (req_Format req) s, s, d)" if "req_Method req = ''export''"
    using that by (simp add: handle_def)
next
  assume g: "getCurrent s = Inr c"
  show "export [] s = Inr (PContext c)"
    using g by (simp add: export_def)
  show "\<exists>ls. export ''env'' s = Inr (PEnv ls)"
    using g by (rule export_env_Inr)
  show "(\<exists>e. export f s = Inl e) \<longleftrightarrow> f \<notin> {''env'', ''json'', []}"
    using export_cases [OF g, of f] export_env_Inr [OF g] by auto
  show "export f s = Inl (''unsupported format: '' @ f)" if "f \<notin> {''env'', ''json'', []}"
    using that export_cases [OF g, of f] by auto
qed

theorem C10_export_empty_format_witness:
  "req_Method (export_req []) = ''export'' \<and> getCurrent svc_two = Inr ctx_dev \<and>
   handle demo_decode (export_req []) (svc_two, disk0) = (Inr (PContext ctx_dev), svc_two, disk0) \<and>
   export ''json'' svc_two = Inr (PContext ctx_dev) \<and>
   export ''xml'' svc_two = Inl ''unsupported format: xml''"
proof -
  have m: "req_Method (export_req []) = ''export''" "req_Format (export_req []) = []"
    by (simp_all add: export_req_def)
  have g: "getCurrent svc_two = Inr ctx_dev"
    by (simp add: getCurrent_def svc_two_def cfg_two_def GetContext_def ctx_dev_def)
  have x: "''xml'' \<notin> {''env'', ''json'', []}" by simp
  note t = C10_export_empty_format [of svc_two "export_req []" demo_decode disk0 ctx_dev "''xml''"]
  from t m(1) have 1: "handle demo_decode (export_req []) (svc_two, disk0) =
      (export (req_Format (export_req [])) svc_two, svc_two, disk0)" by blast
  from t g have 2: "export [] svc_two = Inr (PContext ctx_dev)" by blast
  from t have 3: "export [] svc_two = export ''json'' svc_two" by blast
  from t g x have 4: "export ''xml'' svc_two = Inl (''unsupported format: '' @ ''xml'')" by blast
  from m g 1 2 3 4 show ?thesis by simp
qed

section \<open>Claims about the connection loop\<close>

lemma handleConn_Line_continues:
  "\<exists>s' out'. handleConn um ma h (Line l # rest) (s, out) = handleConn um ma h rest (s', out')"
  by (auto split: option.splits sum.splits prod.splits)

text \<open>
  C3. A line that does not decode is answered with the invalid-request response and the
  loop goes on with the rest of the connection, the service state untouched; a well-formed
  request that follows on the same connection is handed to the handler and answered; a read
  error ends the loop; and after any line whatsoever the loop continues with what follows.
\<close>

theorem C3_malformed_line_keeps_connection:
  assumes "unmarshal l = None" and "marshal invalid_request = Some b"
  shows "handleConn unmarshal marshal handler (Line l # rest) (s, out) =
           handleConn unmarshal marshal handler rest (s, out @ [b @ [CHR 0x0A]]) \<and>
         (unmarshal l2 = Some req \<longrightarrow>
            handleConn unmarshal marshal handler (Line l # Line l2 # rest) (s, out) =
              handleConn unmarshal marshal handler rest
                (snd (handler req s),
                 writeResp marshal
                   (case fst (handler req s) of Inl e \<Rightarrow> error_response e | Inr data \<Rightarrow> ok_response data)
                   (out @ [b @ [CHR 0x0A]]))) \<and>
         handleConn unmarshal marshal handler (ReadError # rest) (s, out) = (s, out) \<and>
         (\<forall>l' s0 out0. \<exists>s' out'.
            handleConn unmarshal marshal handler (Line l' # rest) (s0, out0) =
              handleConn unmarshal marshal handler rest (s', out'))"
proof (intro conjI impI allI)
  show 1: "handleConn unmarshal marshal handler (Line l # rest) (s, out) =
           handleConn unmarshal marshal handler rest (s, out @ [b @ [CHR 0x0A]])" for rest
    using assms by (simp add: writeResp_def)
  show "handleConn unmarshal marshal handler (Line l # Line l2 # rest) (s, out) =
      handleConn unmarshal marshal handler rest
        (snd (handler req s),
         writeResp marshal
           (case fst (handler req s) of Inl e \<Rightarrow> error_response e | Inr data \<Rightarrow> ok_response data)
           (out @ [b @ [CHR 0x0A]]))" if "unmarshal l2 = Some req"
    unfolding 1 using that by (auto split: prod.splits sum.splits)
  show "handleConn unmarshal marshal handler (ReadError # rest) (s, out) = (s, out)"
    by simp
  show "\<exists>s' out'. handleConn unmarshal marshal handler (Line l' # rest) (s0, out0) =
      handleConn unmarshal marshal handler rest (s', out')" for l' s0 out0
    by (rule handleConn_Line_continues)
qed

theorem C3_malformed_line_keeps_connection_witness:
  "demo_unmarshal line_not_json = None \<and> demo_marshal invalid_request = Some wire_invalid \<and>
   demo_unmarshal line_export = Some (export_req []) \<and>
   handleConn demo_unmarshal demo_marshal demo_handler
      [Line line_not_json, Line line_export, ReadError] ((svc_two, disk0), []) =
     ((svc_two, disk0),
      [wire_invalid @ [CHR 0x0A],
       the (demo_marshal (ok_response (PContext ctx_dev))) @ [CHR 0x0A]])"
proof -
  have h1: "demo_unmarshal line_not_json = None"
    by (simp add: demo_unmarshal_def line_not_json_def)
  have h2: "demo_marshal invalid_request = Some wire_invalid"
    by (simp add: demo_marshal_def invalid_request_def wire_invalid_def)
  have h3: "demo_unmarshal line_export = Some (export_req [])"
    by (simp add: demo_unmarshal_def line_export_def)
  have ex: "demo_handler (export_req []) (svc_two, disk0) = (Inr (PContext ctx_dev), svc_two, disk0)"
    by (simp add: demo_handler_def handle_def export_req_def export_def getCurrent_def
        svc_two_def cfg_two_def GetContext_def ctx_dev_def)
  have ma: "demo_marshal (ok_response (PContext ctx_dev)) \<noteq> None"
    by (simp add: demo_marshal_def)
  from C3_malformed_line_keeps_connection [where unmarshal = demo_unmarshal
      and marshal = demo_marshal and l = line_not_json and b = wire_invalid
      and handler = demo_handler and rest = "[ReadError]" and s = "(svc_two, disk0)"
      and out = "[]" and req = "export_req []" and ?l2.0 = line_export, OF h1 h2] h3
  have "handleConn demo_unmarshal demo_marshal demo_handler
      (Line line_not_json # Line line_export # [ReadError]) ((svc_two, disk0), []) =
    handleConn demo_unmarshal demo_marshal demo_handler [ReadError]
      (snd (demo_handler (export_req []) (svc_two, disk0)),
       writeResp demo_marshal
         (case fst (demo_handler (export_req []) (svc_two, disk0)) of
            Inl e \<Rightarrow> error_response e | Inr data \<Rightarrow> ok_response data)
         ([] @ [wire_invalid @ [CHR 0x0A]]))"
    by blast
  then have "handleConn demo_unmarshal demo_marshal demo_handler
      [Line line_not_json, Line line_export, ReadError] ((svc_two, disk0), []) =
     ((svc_two, disk0),
      [wire_invalid @ [CHR 0x0A],
       the (demo_marshal (ok_response (PContext ctx_dev))) @ [CHR 0x0A]])"
    using ma by (auto simp: ex writeResp_def)
  with h1 h2 h3 show ?thesis by simp
qed

section \<open>Proofs: navigation\<close>

lemma refresh_simps [simp]:
  "mode (refreshDelegates ops m) = mode m"
  "cfg (refreshDelegates ops m) = cfg m"
  "cfgPath (refreshDelegates ops m) = cfgPath m"
  "finalized (refreshDelegates ops m) = finalized m"
  "selected (refreshDelegates ops m) = selected m"
  "ctxItem (refreshDelegates ops m) = ctxItem m"
  "parentID (refreshDelegates ops m) = parentID m"
  "profiles (refreshDelegates ops m) = profiles m"
  "err (refreshDelegates ops m) = err m"
  "regionCache (refreshDelegates ops m) = regionCache m"
  "pendingSelectionID (refreshDelegates ops m) = pendingSelectionID m"
  "pendingSelectionNm (refreshDelegates ops m) = pendingSelectionNm m"
  "pendingRegion (refreshDelegates ops m) = pendingRegion m"
  "pendingContextName (refreshDelegates ops m) = pendingContextName m"
  "pendingTenancyOCID (refreshDelegates ops m) = pendingTenancyOCID m"
  by (simp_all add: refreshDelegates_def applyDensityMode_def)

lemma upsert_no_error: "fst (UpsertContext ctx c) = None"
  by (simp add: UpsertContext_def Let_def split: option.splits)

lemma finalize_facts:
  assumes "finalizeSelection m d = ((m', c), d')"
  shows "c = Quit" "finalized m'" "selected m' = Name (ctxItem m)"
    "ctxItem m' = (ctxItem m)\<lparr>CompartmentOCID := parentID m\<rparr>"
    "cfg m' = snd (UpsertContext ((ctxItem m)\<lparr>CompartmentOCID := parentID m\<rparr>)
                 ((cfg m)\<lparr>CurrentContext := Name (ctxItem m)\<rparr>))"
    "save_calls d' = save_calls d @ [(cfgPath m, cfg m')]"
    "faults d' = faults d"
    "faults d (cfgPath m) = None \<Longrightarrow> files d' (cfgPath m) = Some (cfg m') \<and> err m' = err m"
    "regionCache m' = regionCache m"
    "pendingSelectionID m' = pendingSelectionID m"
  using assms upsert_no_error [of "(ctxItem m)\<lparr>CompartmentOCID := parentID m\<rparr>"
      "(cfg m)\<lparr>CurrentContext := Name (ctxItem m)\<rparr>"]
  by (auto simp: finalizeSelection_def Let_def Save_def split: prod.splits option.splits)


lemma finalize_rc: "regionCache (fst (fst (finalizeSelection m d))) = regionCache m"
  by (simp add: finalizeSelection_def Let_def split: prod.splits option.splits)

lemma finalize_cmd: "snd (fst (finalizeSelection m d)) = Quit"
  by (simp add: finalizeSelection_def Let_def split: prod.splits option.splits)

lemma saveAndQuit_ready:
  assumes "commit_ready ops m"
  shows "\<exists>m2. saveAndQuitCurrentMode ops m d = finalizeSelection m2 d \<and> cfgPath m2 = cfgPath m \<and>
           cfg m2 = cfg m \<and> pend m2 = pend m \<and> regionCache m2 = regionCache m"
proof -
  consider (c) "mode m = ''contexts''" | (t) "mode m = ''tenancies''"
    | (k) "mode m = ''compartments''" | (r) "mode m = ''regions''"
    using assms by (auto simp: commit_ready_def split: if_splits)
  then show ?thesis
  proof cases
    case c
    with assms obtain it where "SelectedItem ops (list_w m) = Some (ContextItem it)"
      by (auto simp: commit_ready_def split: option.splits item.splits)
    with c show ?thesis
      by (auto simp: saveAndQuitCurrentMode_def Let_def pend_def)
  next
    case t
    with assms obtain it p where "SelectedItem ops (tenancies m) = Some (TenancyItem it)"
      "map_of (profiles m) (selectProfileForTenancy it (profiles m) (DefaultProfile (Options (cfg m)))) = Some p"
      by (auto simp: commit_ready_def split: option.splits item.splits)
    with t show ?thesis
      by (auto simp: saveAndQuitCurrentMode_def Let_def pend_def)
  next
    case k
    then show ?thesis
      by (auto simp: saveAndQuitCurrentMode_def)
  next
    case r
    with assms obtain n where "SelectedItem ops (regions m) = Some (RegionItem n)"
      by (auto simp: commit_ready_def split: option.splits item.splits)
    with r show ?thesis
      by (auto simp: saveAndQuitCurrentMode_def Let_def pend_def)
  qed
qed

lemma saveAndQuit_not_ready:
  assumes "\<not> commit_ready ops m"
  shows "saveAndQuitCurrentMode ops m d = ((m, NoCmd), d)"
proof -
  consider (c) "mode m = ''contexts''" | (t) "mode m = ''tenancies''"
    | (k) "mode m = ''compartments''" | (r) "mode m = ''regions''"
    | (o) "mode m \<noteq> ''contexts''" "mode m \<noteq> ''tenancies''" "mode m \<noteq> ''compartments''"
        "mode m \<noteq> ''regions''"
    by blast
  then show ?thesis
  proof cases
    case c
    with assms show ?thesis
      by (simp add: saveAndQuitCurrentMode_def commit_ready_def split: option.splits item.splits)
  next
    case t
    with assms show ?thesis
      by (simp add: saveAndQuitCurrentMode_def commit_ready_def Let_def split: option.splits item.splits)
  next
    case k
    with assms show ?thesis by (simp add: commit_ready_def)
  next
    case r
    with assms show ?thesis
      by (simp add: saveAndQuitCurrentMode_def commit_ready_def split: option.splits item.splits)
  next
    case o
    then show ?thesis by (simp add: saveAndQuitCurrentMode_def)
  qed
qed


lemma saveAndQuit_rc: "regionCache (fst (fst (saveAndQuitCurrentMode ops m d))) = regionCache m"
proof (cases "commit_ready ops m")
  case True
  from saveAndQuit_ready [OF True, of d] obtain m2 where
    "saveAndQuitCurrentMode ops m d = finalizeSelection m2 d" "regionCache m2 = regionCache m" by blast
  then show ?thesis by (simp add: finalize_rc)
next
  case False
  then show ?thesis by (simp add: saveAndQuit_not_ready)
qed

lemma saveAndQuit_cmd: "snd (fst (saveAndQuitCurrentMode ops m d)) \<noteq> LoadRegions ctx"
proof (cases "commit_ready ops m")
  case True
  from saveAndQuit_ready [OF True, of d] obtain m2 where
    "saveAndQuitCurrentMode ops m d = finalizeSelection m2 d" by blast
  then show ?thesis by (simp add: finalize_cmd)
next
  case False
  then show ?thesis by (simp add: saveAndQuit_not_ready)
qed

lemma open_compartments_frame:
  "pend (fst (open_compartments m it parent ten)) = pend m"
  "regionCache (fst (open_compartments m it parent ten)) = regionCache m"
  "snd (open_compartments m it parent ten) \<noteq> LoadRegions ctx"
  "mode (fst (open_compartments m it parent ten)) = ''compartments''"
  by (simp_all add: open_compartments_def Let_def pend_def loadCompsCmd_def)

lemma goUpOne_frame:
  "pend (fst (goUpOne m)) = pend m"
  "regionCache (fst (goUpOne m)) = regionCache m"
  "snd (goUpOne m) \<noteq> LoadRegions ctx"
  by (simp_all add: goUpOne_def Let_def pend_def loadCompsCmd_def)

lemma enter_regions_frame:
  "pend m = pend m0 \<Longrightarrow> pend (out_model (enter_regions ops m it)) = pend m0"
  "regionCache (out_model (enter_regions ops m it)) = regionCache m"
  "out_cmd (enter_regions ops m it) = LoadRegions ctx \<Longrightarrow> regionCache m (Name ctx) = None"
  by (auto simp: enter_regions_def Let_def pend_def loadRegionsCmd_def split: option.splits)

lemma mode_cases:
  obtains (contexts) "mode m = ''contexts''" | (tenancies) "mode m = ''tenancies''"
  | (compartments) "mode m = ''compartments''" | (regions) "mode m = ''regions''"
  | (other) "mode m \<noteq> ''contexts''" "mode m \<noteq> ''tenancies''" "mode m \<noteq> ''compartments''"
      "mode m \<noteq> ''regions''"
  by blast

lemma key_enter_rc: "regionCache (out_model (fst (key_enter ops m d))) = regionCache m"
proof (cases m rule: mode_cases)
  case contexts
  then show ?thesis
    by (simp add: key_enter_def Let_def open_compartments_frame split: option.splits item.splits)
next
  case tenancies
  then show ?thesis
    by (simp add: key_enter_def Let_def open_compartments_frame split: option.splits item.splits)
next
  case compartments
  then show ?thesis
    by (simp add: key_enter_def Let_def finalize_rc split_beta split: option.splits item.splits)
next
  case regions
  then show ?thesis
    by (simp add: key_enter_def Let_def split: option.splits item.splits)
next
  case other
  then show ?thesis by (simp add: key_enter_def)
qed

lemma key_enter_cmd: "out_cmd (fst (key_enter ops m d)) \<noteq> LoadRegions ctx"
proof (cases m rule: mode_cases)
  case contexts
  then show ?thesis
    by (simp add: key_enter_def Let_def open_compartments_frame split: option.splits item.splits)
next
  case tenancies
  then show ?thesis
    by (simp add: key_enter_def Let_def open_compartments_frame split: option.splits item.splits)
next
  case compartments
  then show ?thesis
    by (simp add: key_enter_def Let_def finalize_cmd split_beta loadCompsCmd_def
        split: option.splits item.splits)
next
  case regions
  then show ?thesis
    by (simp add: key_enter_def Let_def split: option.splits item.splits)
next
  case other
  then show ?thesis by (simp add: key_enter_def)
qed

lemma finalize_disk:
  "save_calls (snd (finalizeSelection m d)) =
     save_calls d @ [(cfgPath m, cfg (fst (fst (finalizeSelection m d))))] \<and>
   finalized (fst (fst (finalizeSelection m d))) \<and> snd (fst (finalizeSelection m d)) = Quit"
proof -
  have eq: "finalizeSelection m d =
      ((fst (fst (finalizeSelection m d)), snd (fst (finalizeSelection m d))), snd (finalizeSelection m d))"
    by simp
  from finalize_facts(1,2,6) [OF eq] show ?thesis by simp
qed

lemma key_enter_disk:
  "snd (key_enter ops m d) = d \<or>
   committed_step m d (out_model (fst (key_enter ops m d))) (out_cmd (fst (key_enter ops m d)))
     (snd (key_enter ops m d))"
proof (cases m rule: mode_cases)
  case contexts
  then show ?thesis
    by (simp add: key_enter_def Let_def split: option.splits item.splits)
next
  case tenancies
  then show ?thesis
    by (simp add: key_enter_def Let_def split: option.splits item.splits)
next
  case compartments
  then show ?thesis
    using finalize_disk [of m d]
    by (simp add: key_enter_def Let_def split_beta committed_step_def
        split: option.splits item.splits)
next
  case regions
  then show ?thesis
    by (simp add: key_enter_def Let_def split: option.splits item.splits)
next
  case other
  then show ?thesis by (simp add: key_enter_def)
qed

lemma saveAndQuit_disk:
  "snd (saveAndQuitCurrentMode ops m d) = d \<or>
   committed_step m d (fst (fst (saveAndQuitCurrentMode ops m d)))
     (snd (fst (saveAndQuitCurrentMode ops m d))) (snd (saveAndQuitCurrentMode ops m d))"
proof (cases "commit_ready ops m")
  case True
  from saveAndQuit_ready [OF True, of d] obtain m2 where
    m2: "saveAndQuitCurrentMode ops m d = finalizeSelection m2 d" "cfgPath m2 = cfgPath m" by blast
  show ?thesis
    using finalize_disk [of m2 d] m2 by (simp add: committed_step_def)
next
  case False
  then show ?thesis by (simp add: saveAndQuit_not_ready)
qed

lemma key_space_rc: "regionCache (key_space ops m) = regionCache m"
proof (cases m rule: mode_cases)
  case contexts
  then show ?thesis by (simp add: key_space_def split: option.splits item.splits)
next
  case tenancies
  then show ?thesis by (simp add: key_space_def Let_def split: option.splits item.splits)
next
  case compartments
  then show ?thesis by (simp add: key_space_def Let_def split: option.splits item.splits)
next
  case regions
  then show ?thesis by (simp add: key_space_def split: option.splits item.splits)
next
  case other
  then show ?thesis by (simp add: key_space_def)
qed

lemma key_back_frame:
  "regionCache (out_model (key_back ops m)) = regionCache m \<and>
   out_cmd (key_back ops m) \<noteq> LoadRegions ctx"
proof -
  have "regionCache (fst (goUpOne (m\<lparr>status := ''Loading parent...''\<rparr>))) = regionCache m"
    by (simp add: goUpOne_frame)
  then show ?thesis
    by (simp add: key_back_def Let_def goUpOne_frame)
qed

lemma key_r_frame:
  "regionCache (out_model (key_r ops m)) = regionCache m \<and>
   pend (out_model (key_r ops m)) = pend m \<and>
   (out_cmd (key_r ops m) = LoadRegions ctx \<longrightarrow> regionCache m (Name ctx) = None)"
proof -
  have p: "pend (m\<lparr>ctxItem := it\<rparr>) = pend m" for it by (simp add: pend_def)
  have c: "out_cmd (enter_regions ops (m\<lparr>ctxItem := it\<rparr>) it) = LoadRegions ctx \<longrightarrow>
      regionCache m (Name ctx) = None" for it
    using enter_regions_frame(3) [of ops "m\<lparr>ctxItem := it\<rparr>" it ctx] by simp
  show ?thesis
    using c by (simp add: key_r_def enter_regions_frame p split: option.splits item.splits)
qed

lemma key_R_frame:
  "regionCache (out_model (key_R ops m)) = regionCache m \<and>
   pend (out_model (key_R ops m)) = pend m \<and>
   (out_cmd (key_R ops m) = LoadRegions ctx \<longrightarrow> regionCache m (Name ctx) = None)"
  using enter_regions_frame(3) [of ops m "ctxItem m" ctx]
  by (simp add: key_R_def enter_regions_frame)

lemma key_c_frame:
  "regionCache (out_model (key_c ops m)) = regionCache m \<and>
   pend (out_model (key_c ops m)) = pend m \<and>
   out_cmd (key_c ops m) \<noteq> LoadRegions ctx"
proof -
  have p: "pend (m\<lparr>ctxItem := it\<rparr>) = pend m" for it by (simp add: pend_def)
  show ?thesis
    by (simp add: key_c_def Let_def open_compartments_frame p split: option.splits item.splits)
qed

lemma key_C_frame:
  "regionCache (out_model (key_C ops m)) = regionCache m \<and>
   pend (out_model (key_C ops m)) = pend m \<and>
   out_cmd (key_C ops m) \<noteq> LoadRegions ctx"
proof -
  have p: "pend (m\<lparr>ctxItem := it\<rparr>) = pend m" for it by (simp add: pend_def)
  show ?thesis
    by (simp add: key_C_def Let_def open_compartments_frame p split: option.splits)
qed

lemma open_tenancies_frame:
  "regionCache (out_model (open_tenancies ops m)) = regionCache m \<and>
   pend (out_model (open_tenancies ops m)) = pend m \<and>
   out_cmd (open_tenancies ops m) = NoCmd"
  by (simp add: open_tenancies_def pend_def)

lemma key_slash_frame:
  "regionCache (key_slash ops m) = regionCache m \<and> pend (key_slash ops m) = pend m"
  by (simp add: key_slash_def Let_def pend_def)

lemma key_u_frame:
  "regionCache (key_u ops m) = regionCache m \<and> pend (key_u ops m) = pend m"
  by (simp add: key_u_def Let_def pend_def applyDensityMode_def)

lemma key_switch_rc: "regionCache (out_model (fst (key_switch ops k m d))) = regionCache m"
  unfolding key_switch_def
  by (simp add: key_enter_rc key_space_rc saveAndQuit_rc key_back_frame key_r_frame key_R_frame
      key_c_frame key_C_frame open_tenancies_frame key_slash_frame key_u_frame split_beta)

lemma key_switch_cmd:
  "out_cmd (fst (key_switch ops k m d)) = LoadRegions ctx \<Longrightarrow> regionCache m (Name ctx) = None"
  unfolding key_switch_def
  using key_r_frame [of ops m ctx] key_R_frame [of ops m ctx]
  by (simp add: key_enter_cmd saveAndQuit_cmd key_back_frame
      key_c_frame key_C_frame open_tenancies_frame split_beta split: if_splits)


lemma key_switch_disk:
  "snd (key_switch ops k m d) = d \<or>
   committed_step m d (out_model (fst (key_switch ops k m d))) (out_cmd (fst (key_switch ops k m d)))
     (snd (key_switch ops k m d))"
  unfolding key_switch_def
  using key_enter_disk [of ops m d] saveAndQuit_disk [of ops m d]
  by (simp add: split_beta)

lemma key_switch_falls_disk:
  "fst (key_switch ops k m d) = FallsThrough m' \<Longrightarrow> snd (key_switch ops k m d) = d"
  using key_switch_disk [of ops k m d] by (auto simp: committed_step_def)

lemma of_widget_not_load: "of_widget w \<noteq> LoadRegions ctx"
  by (cases w) simp_all

lemma widget_step_frame:
  "regionCache (fst (widget_step ops ms m)) = regionCache m \<and>
   pend (fst (widget_step ops ms m)) = pend m \<and>
   snd (widget_step ops ms m) \<noteq> LoadRegions ctx \<and>
   cfg (fst (widget_step ops ms m)) = cfg m \<and>
   finalized (fst (widget_step ops ms m)) = finalized m"
  by (simp add: widget_step_def Let_def pend_def of_widget_not_load)

lemma record_children_frame:
  "regionCache (foldl record_child m its) = regionCache m \<and>
   pend (foldl record_child m its) = pend m \<and>
   cfg (foldl record_child m its) = cfg m \<and>
   finalized (foldl record_child m its) = finalized m \<and>
   comps (foldl record_child m its) = comps m \<and>
   compCache (foldl record_child m its) = compCache m"
  by (induction its arbitrary: m) (simp_all add: record_child_def pend_def)

lemma comp_result_frame:
  "regionCache (comp_result ops parent its m) = regionCache m \<and>
   pend (comp_result ops parent its m) = pend m \<and>
   cfg (comp_result ops parent its m) = cfg m \<and>
   finalized (comp_result ops parent its m) = finalized m"
  using record_children_frame [of "m\<lparr>compCache := (compCache m)(parent \<mapsto> its)\<rparr>" its]
  by (simp add: comp_result_def Let_def pend_def)

lemma region_result_frame:
  "regionCache (region_result ops n its e m) =
     (regionCache m)(n \<mapsto> (case e of Some er \<Rightarrow> fallbackRegions | None \<Rightarrow> its)) \<and>
   pend (region_result ops n its e m) = pend m \<and>
   cfg (region_result ops n its e m) = cfg m \<and>
   finalized (region_result ops n its e m) = finalized m"
  by (simp add: region_result_def Let_def pend_def split: option.splits)

lemma resize_frame:
  "regionCache (resize ops w h m) = regionCache m \<and> pend (resize ops w h m) = pend m \<and>
   cfg (resize ops w h m) = cfg m \<and> finalized (resize ops w h m) = finalized m"
  by (simp add: resize_def pend_def)

lemma after_switch_frame:
  "(\<forall>n. regionCache m n \<noteq> None \<longrightarrow> regionCache (fst (after_switch ops ms m)) n \<noteq> None) \<and>
   pend (fst (after_switch ops ms m)) = pend m \<and>
   snd (after_switch ops ms m) \<noteq> LoadRegions ctx \<and>
   cfg (fst (after_switch ops ms m)) = cfg m"
proof (cases ms)
  case (compResultMsg parent its e)
  have p: "pend (m\<lparr>err := x\<rparr>) = pend m" for x by (simp add: pend_def)
  from compResultMsg show ?thesis
    by (simp add: after_switch_def widget_step_frame comp_result_frame p split: option.splits)
next
  case (regionResultMsg n its e)
  then show ?thesis
    by (simp add: after_switch_def region_result_frame)
qed (simp_all add: after_switch_def widget_step_frame)

lemma pend_refresh [simp]: "pend (refreshDelegates ops m) = pend m"
  by (simp add: pend_def)

lemma Update_KeyMsg_filtering:
  assumes "filtering ops (refreshDelegates ops m)" "k \<noteq> ''enter''"
  shows "snd (Update ops (KeyMsg k) m d) = d \<and>
         fst (Update ops (KeyMsg k) m d) = widget_step ops (KeyMsg k) (refreshDelegates ops m)"
  using assms
  by (auto simp: Update_def Let_def filtering_def widget_step_def)

lemma Update_KeyMsg_switch:
  assumes "\<not> filtering ops (refreshDelegates ops m) \<or> k = ''enter''"
  shows "Update ops (KeyMsg k) m d =
    (case key_switch ops k (refreshDelegates ops m) d of
       (Returned m' c, d') \<Rightarrow> ((m', c), d')
     | (FallsThrough m', d') \<Rightarrow> (after_switch ops (KeyMsg k) m', d'))"
  using assms
  by (auto simp: Update_def Let_def filtering_def)

lemma Update_not_key:
  assumes "\<And>k. ms \<noteq> KeyMsg k"
  shows "snd (Update ops ms m d) = d \<and>
    fst (Update ops ms m d) =
      after_switch ops ms (case ms of WindowSizeMsg w h \<Rightarrow> resize ops w h (refreshDelegates ops m)
                           | _ \<Rightarrow> refreshDelegates ops m)"
proof (cases ms)
  case (KeyMsg k)
  with assms show ?thesis by blast
qed (simp_all add: Update_def Let_def)

lemma Update_key_cases:
  obtains (widget) "filtering ops (refreshDelegates ops m)" "k \<noteq> ''enter''"
      "Update ops (KeyMsg k) m d = (widget_step ops (KeyMsg k) (refreshDelegates ops m), d)"
  | (returned) m' c d' where "key_switch ops k (refreshDelegates ops m) d = (Returned m' c, d')"
      "Update ops (KeyMsg k) m d = ((m', c), d')"
      "\<not> filtering ops (refreshDelegates ops m) \<or> k = ''enter''"
  | (falls) m' where "key_switch ops k (refreshDelegates ops m) d = (FallsThrough m', d)"
      "Update ops (KeyMsg k) m d = (after_switch ops (KeyMsg k) m', d)"
      "\<not> filtering ops (refreshDelegates ops m) \<or> k = ''enter''"
proof (cases "filtering ops (refreshDelegates ops m) \<and> k \<noteq> ''enter''")
  case True
  with Update_KeyMsg_filtering [of ops m k d] widget show ?thesis
    by (metis prod.collapse)
next
  case False
  then have nf: "\<not> filtering ops (refreshDelegates ops m) \<or> k = ''enter''" by blast
  note sw = Update_KeyMsg_switch [OF nf, of d]
  obtain res d' where ks: "key_switch ops k (refreshDelegates ops m) d = (res, d')"
    by (cases "key_switch ops k (refreshDelegates ops m) d") blast
  show ?thesis
  proof (cases res)
    case (Returned m' c)
    with ks sw returned nf show ?thesis by simp
  next
    case (FallsThrough m')
    with ks key_switch_falls_disk [of ops k "refreshDelegates ops m" d m'] have "d' = d" by simp
    with FallsThrough ks sw falls nf show ?thesis by simp
  qed
qed

lemma Update_rc:
  assumes "regionCache m n \<noteq> None"
  shows "regionCache (fst (fst (Update ops ms m d))) n \<noteq> None"
proof (cases ms)
  case (KeyMsg k)
  show ?thesis
  proof (cases rule: Update_key_cases [of ops m k d])
    case widget
    with assms KeyMsg show ?thesis by (simp add: widget_step_frame)
  next
    case (returned m' c d')
    from key_switch_rc [of ops k "refreshDelegates ops m" d] returned(1)
    have "regionCache m' = regionCache m" by simp
    with assms KeyMsg returned(2) show ?thesis by simp
  next
    case (falls m')
    from key_switch_rc [of ops k "refreshDelegates ops m" d] falls(1)
    have "regionCache m' = regionCache m" by simp
    with assms after_switch_frame [of m' ops "KeyMsg k"] KeyMsg falls(2) show ?thesis by simp
  qed
next
  case (WindowSizeMsg w h)
  with assms after_switch_frame [of "resize ops w h (refreshDelegates ops m)" ops ms]
  show ?thesis by (simp add: Update_def Let_def resize_frame)
next
  case (compResultMsg p its e)
  with assms after_switch_frame [of "refreshDelegates ops m" ops ms]
  show ?thesis by (simp add: Update_def Let_def)
next
  case (regionResultMsg c its e)
  with assms after_switch_frame [of "refreshDelegates ops m" ops ms]
  show ?thesis by (simp add: Update_def Let_def)
next
  case (OtherMsg x)
  with assms after_switch_frame [of "refreshDelegates ops m" ops ms]
  show ?thesis by (simp add: Update_def Let_def)
qed

lemma Update_cmd:
  assumes "snd (fst (Update ops ms m d)) = LoadRegions ctx"
  shows "regionCache m (Name ctx) = None"
proof (cases ms)
  case (KeyMsg k)
  show ?thesis
  proof (cases rule: Update_key_cases [of ops m k d])
    case widget
    with assms KeyMsg show ?thesis by (simp add: widget_step_frame)
  next
    case (returned m' c d')
    with assms KeyMsg have "out_cmd (fst (key_switch ops k (refreshDelegates ops m) d)) = LoadRegions ctx"
      by simp
    from key_switch_cmd [OF this] show ?thesis by simp
  next
    case (falls m')
    with assms KeyMsg after_switch_frame [of m' ops "KeyMsg k" ctx] show ?thesis by simp
  qed
next
  case (WindowSizeMsg w h)
  with assms after_switch_frame [of "resize ops w h (refreshDelegates ops m)" ops ms ctx]
  show ?thesis by (simp add: Update_def Let_def)
next
  case (compResultMsg p its e)
  with assms after_switch_frame [of "refreshDelegates ops m" ops ms ctx]
  show ?thesis by (simp add: Update_def Let_def)
next
  case (regionResultMsg c its e)
  with assms after_switch_frame [of "refreshDelegates ops m" ops ms ctx]
  show ?thesis by (simp add: Update_def Let_def)
next
  case (OtherMsg x)
  with assms after_switch_frame [of "refreshDelegates ops m" ops ms ctx]
  show ?thesis by (simp add: Update_def Let_def)
qed


lemma Update_disk:
  "snd (Update ops ms m d) = d \<or>
   committed_step m d (fst (fst (Update ops ms m d))) (snd (fst (Update ops ms m d)))
     (snd (Update ops ms m d))"
proof (cases ms)
  case (KeyMsg k)
  show ?thesis
  proof (cases rule: Update_key_cases [of ops m k d])
    case widget
    with KeyMsg show ?thesis by simp
  next
    case (returned m' c d')
    with key_switch_disk [of ops k "refreshDelegates ops m" d] KeyMsg show ?thesis
      by (simp add: committed_step_def)
  next
    case (falls m')
    with KeyMsg show ?thesis by simp
  qed
qed (simp_all add: Update_def Let_def)

lemma key_switch_quit:
  "k = ''esc'' \<or> k = ''ctrl+c'' \<Longrightarrow> key_switch ops k m d = (Returned m Quit, d)"
  by (elim disjE) (simp_all add: key_switch_def)

lemma key_switch_commit:
  "k = ''ctrl+s'' \<or> k = ''q'' \<Longrightarrow>
     key_switch ops k m d =
       (Returned (fst (fst (saveAndQuitCurrentMode ops m d))) (snd (fst (saveAndQuitCurrentMode ops m d))),
        snd (saveAndQuitCurrentMode ops m d))"
  by (elim disjE) (simp_all add: key_switch_def split_beta)

lemma session_saves:
  "save_calls (snd (fst (run_session ops es m d))) = save_calls d \<or>
   (\<exists>x. save_calls (snd (fst (run_session ops es m d))) = save_calls d @ [x] \<and>
        snd (run_session ops es m d) \<and> finalized (fst (fst (run_session ops es m d))))"
proof (induction es arbitrary: m d)
  case Nil
  show ?case by simp
next
  case (Cons e es)
  obtain m' c d' where u: "Update ops e m d = ((m', c), d')"
    by (metis prod.collapse)
  from Update_disk [of ops e m d] u
  consider (same) "d' = d" | (commit) "committed_step m d m' c d'" by auto
  then show ?case
  proof cases
    case same
    with u Cons.IH [of m' d] show ?thesis by simp
  next
    case commit
    with u show ?thesis by (simp add: committed_step_def)
  qed
qed

lemma session_rc:
  "regionCache m n \<noteq> None \<Longrightarrow> regionCache (fst (fst (run_session ops es m d))) n \<noteq> None"
proof (induction es arbitrary: m d)
  case Nil
  then show ?case by simp
next
  case (Cons e es)
  obtain m' c d' where u: "Update ops e m d = ((m', c), d')"
    by (metis prod.collapse)
  from Update_rc [OF Cons.prems, of ops e d] u have "regionCache m' n \<noteq> None" by simp
  from Cons.IH [OF this] this u show ?case by simp
qed

lemma session_no_reload:
  "regionCache m n \<noteq> None \<Longrightarrow> LoadRegions ctx \<in> set (session_cmds ops es m d) \<Longrightarrow> Name ctx \<noteq> n"
proof (induction es arbitrary: m d)
  case Nil
  then show ?case by simp
next
  case (Cons e es)
  obtain m' c d' where u: "Update ops e m d = ((m', c), d')"
    by (metis prod.collapse)
  from Update_rc [OF Cons.prems(1), of ops e d] u have rc: "regionCache m' n \<noteq> None" by simp
  from Cons.prems(2) u
  consider (here) "c = LoadRegions ctx" | (later) "LoadRegions ctx \<in> set (session_cmds ops es m' d')"
    by (auto split: if_splits)
  then show ?case
  proof cases
    case here
    with Update_cmd [of ops e m d ctx] u have "regionCache m (Name ctx) = None" by simp
    with Cons.prems(1) show ?thesis by auto
  next
    case later
    from Cons.IH [OF rc later] show ?thesis .
  qed
qed



section \<open>Claims about navigation\<close>






lemma Update_region_failure:
  "Update ops (regionResultMsg n its (Some e)) m d =
     ((region_result ops n its (Some e) (refreshDelegates ops m), NoCmd), d)"
  by (simp add: Update_def Let_def after_switch_def)

lemma Update_r_cached:
  assumes "regionCache m (Name it) = Some rs" "mode m = ''contexts''"
    "\<not> filtering ops (refreshDelegates ops m)"
    "SelectedItem ops (list_w (refreshDelegates ops m)) = Some (ContextItem it)"
  shows "Update ops (KeyMsg ''r'') m d =
    (((refreshDelegates ops m)\<lparr>ctxItem := it, mode := ''regions'',
        regions := Select ops 0 (SetItems ops (toRegionList rs) (regions (refreshDelegates ops m))),
        status := ''Select region (Space to stage, Ctrl+S to save)''\<rparr>, NoCmd), d)"
proof -
  have "key_switch ops ''r'' (refreshDelegates ops m) d = (key_r ops (refreshDelegates ops m), d)"
    by (simp add: key_switch_def)
  with Update_KeyMsg_switch [of ops m "''r''" d] assms show ?thesis
    by (simp add: key_r_def enter_regions_def Let_def)
qed

text \<open>
  C4. A failed region fetch for a context name returns no command, shows the built-in
  region list (the items of the region list are that list, for a widget that returns the
  items it was given) and stores it in the cache under that name. Whatever messages follow
  in the session, the cache keeps an entry for the name and no step returns the fetch
  command for a context of that name; and entering region mode with \<open>r\<close> on a context
  whose name has a cache entry shows the cached list and returns no command.
\<close>

theorem C4_region_fallback_cached:
  "Update ops (regionResultMsg n its (Some e)) m d =
     ((region_result ops n its (Some e) (refreshDelegates ops m), NoCmd), d) \<and>
   regionCache (region_result ops n its (Some e) (refreshDelegates ops m)) n = Some fallbackRegions \<and>
   regions (region_result ops n its (Some e) (refreshDelegates ops m)) =
     Select ops 0 (SetItems ops (toRegionList fallbackRegions) (regions (refreshDelegates ops m))) \<and>
   ((\<forall>xs l. Items ops (Select ops 0 (SetItems ops xs l)) = xs) \<longrightarrow>
      Items ops (regions (region_result ops n its (Some e) (refreshDelegates ops m))) =
        toRegionList fallbackRegions) \<and>
   (\<forall>ctx. LoadRegions ctx \<in>
        set (session_cmds ops es (region_result ops n its (Some e) (refreshDelegates ops m)) d) \<longrightarrow>
      Name ctx \<noteq> n) \<and>
   regionCache (fst (fst (run_session ops es
      (region_result ops n its (Some e) (refreshDelegates ops m)) d))) n \<noteq> None \<and>
   (regionCache m2 (Name it) = Some rs \<and> mode m2 = ''contexts'' \<and>
    \<not> filtering ops (refreshDelegates ops m2) \<and>
    SelectedItem ops (list_w (refreshDelegates ops m2)) = Some (ContextItem it) \<longrightarrow>
      snd (fst (Update ops (KeyMsg ''r'') m2 d2)) = NoCmd \<and>
      mode (fst (fst (Update ops (KeyMsg ''r'') m2 d2))) = ''regions'' \<and>
      regions (fst (fst (Update ops (KeyMsg ''r'') m2 d2))) =
        Select ops 0 (SetItems ops (toRegionList rs) (regions (refreshDelegates ops m2))))"
proof -
  let ?m' = "region_result ops n its (Some e) (refreshDelegates ops m)"
  have rc: "regionCache ?m' n = Some fallbackRegions"
    by (simp add: region_result_frame)
  have rg: "regions ?m' =
      Select ops 0 (SetItems ops (toRegionList fallbackRegions) (regions (refreshDelegates ops m)))"
    by (simp add: region_result_def Let_def)
  have nz: "regionCache ?m' n \<noteq> None" using rc by simp
  have nr: "Name ctx \<noteq> n" if "LoadRegions ctx \<in> set (session_cmds ops es ?m' d)" for ctx
    using session_no_reload [OF nz that] .
  have r: "snd (fst (Update ops (KeyMsg ''r'') m2 d2)) = NoCmd \<and>
      mode (fst (fst (Update ops (KeyMsg ''r'') m2 d2))) = ''regions'' \<and>
      regions (fst (fst (Update ops (KeyMsg ''r'') m2 d2))) =
        Select ops 0 (SetItems ops (toRegionList rs) (regions (refreshDelegates ops m2)))"
    if "regionCache m2 (Name it) = Some rs" "mode m2 = ''contexts''"
      "\<not> filtering ops (refreshDelegates ops m2)"
      "SelectedItem ops (list_w (refreshDelegates ops m2)) = Some (ContextItem it)"
    using Update_r_cached [OF that, of d2] by simp
  show ?thesis
    using Update_region_failure [of ops n its e m d] rc rg nr session_rc [OF nz, of ops es d] r
    by (simp add: rg)
qed

theorem C4_region_fallback_cached_witness:
  "snd (fst (Update simple_ops (KeyMsg ''r'') tui_dev disk0)) = LoadRegions ctx_dev \<and>
   regionCache tui_failed ''dev'' = Some fallbackRegions \<and>
   Items simple_ops (regions tui_failed) = toRegionList fallbackRegions \<and>
   mode tui_back = ''contexts'' \<and>
   snd (fst (Update simple_ops (KeyMsg ''r'') tui_back disk0)) = NoCmd \<and>
   mode (fst (fst (Update simple_ops (KeyMsg ''r'') tui_back disk0))) = ''regions''"
proof -
  have h0: "snd (fst (Update simple_ops (KeyMsg ''r'') tui_dev disk0)) = LoadRegions ctx_dev"
    by code_simp
  have law: "\<forall>xs l. Items simple_ops (Select simple_ops 0 (SetItems simple_ops xs l)) = xs"
    by (simp add: simple_ops_def)
  have h1: "regionCache tui_back (Name ctx_dev) = Some fallbackRegions" by code_simp
  have h2: "mode tui_back = ''contexts''" by code_simp
  have h3: "\<not> filtering simple_ops (refreshDelegates simple_ops tui_back)" by code_simp
  have h4: "SelectedItem simple_ops (list_w (refreshDelegates simple_ops tui_back)) = Some (ContextItem ctx_dev)"
    by code_simp
  note t = C4_region_fallback_cached [where ops = simple_ops and n = "''dev''" and its = "[]"
      and e = "''timeout''" and m = tui_regions and d = disk0 and es = "[]" and ?m2.0 = tui_back
      and it = ctx_dev and rs = fallbackRegions and ?d2.0 = disk0]
  from t have a: "regionCache tui_failed ''dev'' = Some fallbackRegions"
    unfolding tui_failed_def by blast
  from t law have b: "Items simple_ops (regions tui_failed) = toRegionList fallbackRegions"
    unfolding tui_failed_def by blast
  from t h1 h2 h3 h4 have c: "snd (fst (Update simple_ops (KeyMsg ''r'') tui_back disk0)) = NoCmd \<and>
      mode (fst (fst (Update simple_ops (KeyMsg ''r'') tui_back disk0))) = ''regions''"
    by blast
  from h0 a b h2 c show ?thesis by simp
qed

lemma index_of_update_same:
  "index_of n xs = Some i \<Longrightarrow> Name x = n \<Longrightarrow> index_of n (xs[i := x]) = Some i"
proof (induction xs arbitrary: i)
  case Nil
  then show ?case by simp
next
  case (Cons e es)
  show ?case
  proof (cases "Name e = n")
    case True
    with Cons.prems show ?thesis by simp
  next
    case False
    with Cons.prems obtain j where j: "index_of n es = Some j" "i = Suc j" by auto
    from Cons.IH [OF j(1) Cons.prems(2)] False j(2) show ?thesis by simp
  qed
qed

lemma index_of_append_new:
  "index_of n xs = None \<Longrightarrow> Name x = n \<Longrightarrow> index_of n (xs @ [x]) = Some (length xs)"
  by (induction xs) (auto split: if_splits)

lemma get_after_upsert: "GetContext (Name x) (snd (UpsertContext x c)) = Inr x"
proof (cases "index_of (Name x) (Contexts c)")
  case None
  from index_of_append_new [OF None, of x] None show ?thesis
    by (simp add: GetContext_def UpsertContext_def Let_def)
next
  case (Some i)
  from index_of_Some [OF Some] have "i < length (Contexts c)" by simp
  with index_of_update_same [OF Some, of x] Some show ?thesis
    by (simp add: GetContext_def UpsertContext_def)
qed

lemma finalize_store:
  assumes "finalizeSelection m d = ((m', c), d')"
  shows "CurrentContext (cfg m') = Name (ctxItem m) \<and>
         GetContext (Name (ctxItem m)) (cfg m') = Inr (ctxItem m')"
proof -
  let ?x = "(ctxItem m)\<lparr>CompartmentOCID := parentID m\<rparr>"
  let ?c0 = "(cfg m)\<lparr>CurrentContext := Name (ctxItem m)\<rparr>"
  from finalize_facts(4,5) [OF assms]
  have x: "ctxItem m' = ?x" and c: "cfg m' = snd (UpsertContext ?x ?c0)" by simp_all
  have "CurrentContext (snd (UpsertContext ?x ?c0)) = Name (ctxItem m)"
    by (simp add: current_upsert)
  moreover have "GetContext (Name ?x) (snd (UpsertContext ?x ?c0)) = Inr ?x"
    by (rule get_after_upsert)
  ultimately show ?thesis using x c by simp
qed

lemma Update_enter_leaf:
  assumes "mode m = ''compartments''" "Items ops (comps (refreshDelegates ops m)) = []"
    "FilterState ops (comps (refreshDelegates ops m)) \<noteq> Filtering" "k = ''enter'' \<or> k = ''right''"
  shows "Update ops (KeyMsg k) m d = finalizeSelection (refreshDelegates ops m) d"
proof -
  have nf: "\<not> filtering ops (refreshDelegates ops m)"
    using assms(1,3) by (simp add: filtering_def)
  have "key_switch ops k (refreshDelegates ops m) d = key_enter ops (refreshDelegates ops m) d"
    using assms(4) by (elim disjE) (simp_all add: key_switch_def)
  moreover have "key_enter ops (refreshDelegates ops m) d =
      (Returned (fst (fst (finalizeSelection (refreshDelegates ops m) d)))
         (snd (fst (finalizeSelection (refreshDelegates ops m) d))),
       snd (finalizeSelection (refreshDelegates ops m) d))"
    using assms(1,2,3) by (simp add: key_enter_def split_beta)
  ultimately show ?thesis
    using Update_KeyMsg_switch [of ops m k d] nf by simp
qed

text \<open>
  C5, as amended. In compartments mode, when the list holds no children and is not in
  filter input, enter (or right) finalizes the session: it quits with the finalized flag
  set, the active context carries the cursor \<open>parentID\<close> as its compartment, that
  context's name is the current context of the configuration and the configuration stores
  the context under that name, and \<open>Save\<close> is called once with that configuration;
  when the disk has no fault at the path, the file holds it.
\<close>

theorem C5_leaf_confirm_commits_parent:
  assumes "mode m = ''compartments''"
    and "Items ops (comps (refreshDelegates ops m)) = []"
    and "FilterState ops (comps (refreshDelegates ops m)) \<noteq> Filtering"
    and "k = ''enter'' \<or> k = ''right''"
  shows "snd (fst (Update ops (KeyMsg k) m d)) = Quit \<and>
         finalized (fst (fst (Update ops (KeyMsg k) m d))) \<and>
         selected (fst (fst (Update ops (KeyMsg k) m d))) = Name (ctxItem m) \<and>
         ctxItem (fst (fst (Update ops (KeyMsg k) m d))) = (ctxItem m)\<lparr>CompartmentOCID := parentID m\<rparr> \<and>
         CompartmentOCID (ctxItem (fst (fst (Update ops (KeyMsg k) m d)))) = parentID m \<and>
         CurrentContext (cfg (fst (fst (Update ops (KeyMsg k) m d)))) = Name (ctxItem m) \<and>
         GetContext (Name (ctxItem m)) (cfg (fst (fst (Update ops (KeyMsg k) m d)))) =
           Inr ((ctxItem m)\<lparr>CompartmentOCID := parentID m\<rparr>) \<and>
         save_calls (snd (Update ops (KeyMsg k) m d)) =
           save_calls d @ [(cfgPath m, cfg (fst (fst (Update ops (KeyMsg k) m d))))] \<and>
         (faults d (cfgPath m) = None \<longrightarrow>
            files (snd (Update ops (KeyMsg k) m d)) (cfgPath m) =
              Some (cfg (fst (fst (Update ops (KeyMsg k) m d)))) \<and>
            err (fst (fst (Update ops (KeyMsg k) m d))) = err m)"
proof -
  let ?r = "refreshDelegates ops m"
  let ?U = "Update ops (KeyMsg k) m d"
  have u: "?U = finalizeSelection ?r d"
    using assms by (rule Update_enter_leaf)
  then have eq: "finalizeSelection ?r d = ((fst (fst ?U), snd (fst ?U)), snd ?U)" by simp
  note f = finalize_facts [OF eq] finalize_store [OF eq]
  from f(1) have 1: "snd (fst ?U) = Quit" .
  from f(2) have 2: "finalized (fst (fst ?U))" .
  from f(3) have 3: "selected (fst (fst ?U)) = Name (ctxItem m)" by simp
  from f(4) have 4: "ctxItem (fst (fst ?U)) = (ctxItem m)\<lparr>CompartmentOCID := parentID m\<rparr>" by simp
  from f(6) have 6: "save_calls (snd ?U) = save_calls d @ [(cfgPath m, cfg (fst (fst ?U)))]" by simp
  have 8: "files (snd ?U) (cfgPath m) = Some (cfg (fst (fst ?U))) \<and> err (fst (fst ?U)) = err m"
    if "faults d (cfgPath m) = None"
    using f(8) that by simp
  from f(11) 4 have 9: "CurrentContext (cfg (fst (fst ?U))) = Name (ctxItem m) \<and>
      GetContext (Name (ctxItem m)) (cfg (fst (fst ?U))) = Inr ((ctxItem m)\<lparr>CompartmentOCID := parentID m\<rparr>)"
    by simp
  from 1 2 3 4 6 8 9 show ?thesis by simp
qed

theorem C5_leaf_confirm_commits_parent_witness:
  "mode tui_leaf = ''compartments'' \<and>
   Items simple_ops (comps (refreshDelegates simple_ops tui_leaf)) = [] \<and>
   FilterState simple_ops (comps (refreshDelegates simple_ops tui_leaf)) \<noteq> Filtering \<and>
   parentID tui_leaf = ''ocid1.compartment.oc1..a'' \<and>
   finalized (fst (fst (Update simple_ops (KeyMsg ''enter'') tui_leaf disk0))) \<and>
   CompartmentOCID (ctxItem (fst (fst (Update simple_ops (KeyMsg ''enter'') tui_leaf disk0)))) =
     ''ocid1.compartment.oc1..a'' \<and>
   CurrentContext (cfg (fst (fst (Update simple_ops (KeyMsg ''enter'') tui_leaf disk0)))) = ''dev'' \<and>
   length (save_calls (snd (Update simple_ops (KeyMsg ''enter'') tui_leaf disk0))) = 1"
proof -
  have h1: "mode tui_leaf = ''compartments''" by code_simp
  have h2: "Items simple_ops (comps (refreshDelegates simple_ops tui_leaf)) = []" by code_simp
  have h3: "FilterState simple_ops (comps (refreshDelegates simple_ops tui_leaf)) \<noteq> Filtering"
    by code_simp
  have h4: "''enter'' = ''enter'' \<or> ''enter'' = ''right''" by simp
  have p: "parentID tui_leaf = ''ocid1.compartment.oc1..a''" by code_simp
  have n: "Name (ctxItem tui_leaf) = ''dev''" by code_simp
  have s: "save_calls disk0 = []" by (simp add: disk0_def)
  from C5_leaf_confirm_commits_parent [OF h1 h2 h3 h4, of disk0] h1 h2 h3 p n s
  show ?thesis by simp
qed

text \<open>
  Without the restriction to a list outside filter input the claim fails: at a leaf whose
  list has been put into filter input with \<open>/\<close>, enter only applies the filter; nothing
  is finalized and nothing is saved.
\<close>

theorem C5_enter_in_filter_input_counterexample:
  "mode tui_leaf_filtering = ''compartments'' \<and>
   Items simple_ops (comps tui_leaf_filtering) = [] \<and>
   FilterState simple_ops (comps tui_leaf_filtering) = Filtering \<and>
   snd (fst (Update simple_ops (KeyMsg ''enter'') tui_leaf_filtering disk0)) = NoCmd \<and>
   \<not> finalized (fst (fst (Update simple_ops (KeyMsg ''enter'') tui_leaf_filtering disk0))) \<and>
   cfg (fst (fst (Update simple_ops (KeyMsg ''enter'') tui_leaf_filtering disk0))) = cfg_dev \<and>
   save_calls (snd (Update simple_ops (KeyMsg ''enter'') tui_leaf_filtering disk0)) = []"
  by code_simp



lemma widget_step_selected: "selected (fst (widget_step ops ms m)) = selected m"
  by (simp add: widget_step_def Let_def)

lemma Update_quit:
  assumes "k = ''esc'' \<or> k = ''ctrl+c''"
  shows "snd (Update ops (KeyMsg k) m d) = d \<and>
         cfg (fst (fst (Update ops (KeyMsg k) m d))) = cfg m \<and>
         finalized (fst (fst (Update ops (KeyMsg k) m d))) = finalized m \<and>
         selected (fst (fst (Update ops (KeyMsg k) m d))) = selected m \<and>
         (\<not> filtering ops (refreshDelegates ops m) \<longrightarrow>
            fst (Update ops (KeyMsg k) m d) = (refreshDelegates ops m, Quit))"
proof (cases "filtering ops (refreshDelegates ops m)")
  case True
  from assms have "k \<noteq> ''enter''" by auto
  from Update_KeyMsg_filtering [OF True this, of d] True show ?thesis
    by (simp add: widget_step_frame widget_step_selected)
next
  case False
  then have "\<not> filtering ops (refreshDelegates ops m) \<or> k = ''enter''" by simp
  from Update_KeyMsg_switch [OF this, of d] key_switch_quit [OF assms, of ops "refreshDelegates ops m" d]
  show ?thesis by simp
qed

lemma Update_commit:
  assumes "k = ''ctrl+s'' \<or> k = ''q''" "\<not> filtering ops (refreshDelegates ops m)"
  shows "Update ops (KeyMsg k) m d = saveAndQuitCurrentMode ops (refreshDelegates ops m) d"
proof -
  from assms(2) have "\<not> filtering ops (refreshDelegates ops m) \<or> k = ''enter''" by simp
  from Update_KeyMsg_switch [OF this, of d] key_switch_commit [OF assms(1), of ops "refreshDelegates ops m" d]
  show ?thesis by simp
qed

text \<open>
  C1, as amended. The quit keys (\<open>esc\<close>, \<open>ctrl+c\<close>) never touch the store: in every
  state the disk, the save log and the configuration are what they were and the finalized
  flag keeps its value; outside filter input they return \<open>tea.Quit\<close> at once, while in
  filter input the key goes to the list widget. The commit keys (\<open>ctrl+s\<close>, \<open>q\<close>),
  outside filter input, quit with the finalized flag set after exactly one call of
  \<open>Save\<close> when there is a row to commit, and otherwise change nothing and return no
  command. In every session \<open>Save\<close> is called at most once, and when it has been
  called the session has ended with the finalized flag set.
\<close>

theorem C1_quit_never_saves_commit_saves_once:
  "(k = ''esc'' \<or> k = ''ctrl+c'' \<longrightarrow>
      snd (Update ops (KeyMsg k) m d) = d \<and>
      cfg (fst (fst (Update ops (KeyMsg k) m d))) = cfg m \<and>
      finalized (fst (fst (Update ops (KeyMsg k) m d))) = finalized m \<and>
      selected (fst (fst (Update ops (KeyMsg k) m d))) = selected m \<and>
      (\<not> filtering ops (refreshDelegates ops m) \<longrightarrow>
         fst (Update ops (KeyMsg k) m d) = (refreshDelegates ops m, Quit))) \<and>
   ((k = ''ctrl+s'' \<or> k = ''q'') \<and> \<not> filtering ops (refreshDelegates ops m) \<longrightarrow>
      (commit_ready ops (refreshDelegates ops m) \<longrightarrow>
         snd (fst (Update ops (KeyMsg k) m d)) = Quit \<and>
         finalized (fst (fst (Update ops (KeyMsg k) m d))) \<and>
         save_calls (snd (Update ops (KeyMsg k) m d)) =
           save_calls d @ [(cfgPath m, cfg (fst (fst (Update ops (KeyMsg k) m d))))]) \<and>
      (\<not> commit_ready ops (refreshDelegates ops m) \<longrightarrow>
         Update ops (KeyMsg k) m d = ((refreshDelegates ops m, NoCmd), d))) \<and>
   length (save_calls (snd (fst (run_session ops es m d)))) \<le> length (save_calls d) + 1 \<and>
   (save_calls (snd (fst (run_session ops es m d))) \<noteq> save_calls d \<longrightarrow>
      snd (run_session ops es m d) \<and> finalized (fst (fst (run_session ops es m d))))"
proof (intro conjI impI)
  assume q: "k = ''esc'' \<or> k = ''ctrl+c''"
  note u = Update_quit [OF q, of ops m d]
  from u show "snd (Update ops (KeyMsg k) m d) = d" by simp
  from u show "cfg (fst (fst (Update ops (KeyMsg k) m d))) = cfg m" by simp
  from u show "finalized (fst (fst (Update ops (KeyMsg k) m d))) = finalized m" by simp
  from u show "selected (fst (fst (Update ops (KeyMsg k) m d))) = selected m" by simp
  from u show "fst (Update ops (KeyMsg k) m d) = (refreshDelegates ops m, Quit)"
    if "\<not> filtering ops (refreshDelegates ops m)" using that by simp
next
  assume c: "(k = ''ctrl+s'' \<or> k = ''q'') \<and> \<not> filtering ops (refreshDelegates ops m)"
  then have u: "Update ops (KeyMsg k) m d = saveAndQuitCurrentMode ops (refreshDelegates ops m) d"
    using Update_commit [of k ops m d] by simp
  {
    assume r: "commit_ready ops (refreshDelegates ops m)"
    from saveAndQuit_ready [OF r, of d] obtain m2 where
      m2: "saveAndQuitCurrentMode ops (refreshDelegates ops m) d = finalizeSelection m2 d"
        "cfgPath m2 = cfgPath (refreshDelegates ops m)" by blast
    note f = finalize_disk [of m2 d]
    from f u m2 show "snd (fst (Update ops (KeyMsg k) m d)) = Quit" by simp
    from f u m2 show "finalized (fst (fst (Update ops (KeyMsg k) m d)))" by simp
    from f u m2 show "save_calls (snd (Update ops (KeyMsg k) m d)) =
        save_calls d @ [(cfgPath m, cfg (fst (fst (Update ops (KeyMsg k) m d))))]" by simp
  }
  {
    assume r: "\<not> commit_ready ops (refreshDelegates ops m)"
    from saveAndQuit_not_ready [OF r, of d] u
    show "Update ops (KeyMsg k) m d = ((refreshDelegates ops m, NoCmd), d)" by simp
  }
next
  from session_saves [of ops es m d]
  show "length (save_calls (snd (fst (run_session ops es m d)))) \<le> length (save_calls d) + 1"
    by auto
  from session_saves [of ops es m d]
  show "snd (run_session ops es m d)"
    if "save_calls (snd (fst (run_session ops es m d))) \<noteq> save_calls d" using that by auto
  from session_saves [of ops es m d]
  show "finalized (fst (fst (run_session ops es m d)))"
    if "save_calls (snd (fst (run_session ops es m d))) \<noteq> save_calls d" using that by auto
qed

theorem C1_quit_never_saves_commit_saves_once_witness:
  "\<not> filtering simple_ops (refreshDelegates simple_ops tui_dev) \<and>
   commit_ready simple_ops (refreshDelegates simple_ops tui_dev) \<and>
   snd (fst (Update simple_ops (KeyMsg ''esc'') tui_dev disk0)) = Quit \<and>
   snd (Update simple_ops (KeyMsg ''esc'') tui_dev disk0) = disk0 \<and>
   snd (fst (Update simple_ops (KeyMsg ''ctrl+s'') tui_dev disk0)) = Quit \<and>
   finalized (fst (fst (Update simple_ops (KeyMsg ''ctrl+s'') tui_dev disk0))) \<and>
   length (save_calls (snd (Update simple_ops (KeyMsg ''ctrl+s'') tui_dev disk0))) = 1"
proof -
  have h1: "\<not> filtering simple_ops (refreshDelegates simple_ops tui_dev)" by code_simp
  have h2: "commit_ready simple_ops (refreshDelegates simple_ops tui_dev)" by code_simp
  have k1: "''esc'' = ''esc'' \<or> ''esc'' = ''ctrl+c''" by simp
  have k2: "''ctrl+s'' = ''ctrl+s'' \<or> ''ctrl+s'' = ''q''" by simp
  have s: "save_calls disk0 = []" by (simp add: disk0_def)
  note q = C1_quit_never_saves_commit_saves_once [where k = "''esc''" and ops = simple_ops
      and m = tui_dev and d = disk0 and es = "[]"]
  note c = C1_quit_never_saves_commit_saves_once [where k = "''ctrl+s''" and ops = simple_ops
      and m = tui_dev and d = disk0 and es = "[]"]
  from q k1 h1 have a: "snd (Update simple_ops (KeyMsg ''esc'') tui_dev disk0) = disk0"
    "fst (Update simple_ops (KeyMsg ''esc'') tui_dev disk0) = (refreshDelegates simple_ops tui_dev, Quit)"
    by blast+
  from c k2 h1 h2 have b: "snd (fst (Update simple_ops (KeyMsg ''ctrl+s'') tui_dev disk0)) = Quit"
    "finalized (fst (fst (Update simple_ops (KeyMsg ''ctrl+s'') tui_dev disk0)))"
    "save_calls (snd (Update simple_ops (KeyMsg ''ctrl+s'') tui_dev disk0)) =
       save_calls disk0 @ [(cfgPath tui_dev, cfg (fst (fst (Update simple_ops (KeyMsg ''ctrl+s'') tui_dev disk0))))]"
    by blast+
  from h1 h2 a b s show ?thesis by simp
qed

text \<open>
  The claim as written fails for the commit action: with an empty context list the commit
  key finds no row, saves nothing and does not end the session, so a session in which the
  commit key was pressed can end with no call of \<open>Save\<close> at all.
\<close>

theorem C1_commit_without_row_counterexample:
  "mode tui_empty = ''contexts'' \<and>
   \<not> filtering simple_ops (refreshDelegates simple_ops tui_empty) \<and>
   snd (fst (Update simple_ops (KeyMsg ''ctrl+s'') tui_empty disk0)) = NoCmd \<and>
   \<not> finalized (fst (fst (Update simple_ops (KeyMsg ''ctrl+s'') tui_empty disk0))) \<and>
   save_calls (snd (Update simple_ops (KeyMsg ''ctrl+s'') tui_empty disk0)) = [] \<and>
   snd (run_session simple_ops [KeyMsg ''ctrl+s'', KeyMsg ''esc''] tui_empty disk0) \<and>
   save_calls (snd (fst (run_session simple_ops [KeyMsg ''ctrl+s'', KeyMsg ''esc''] tui_empty disk0))) = []"
  by code_simp

end
